theory Spec2Isabelle
  imports Main "HOL-Library.Word" "HOL-Library.Char_ord" "HOL-Library.List_Lexorder"
begin

unbundle bit_operations_syntax

section \<open>wpaste: the named-record store of main.go\<close>

text \<open>
  A shallow embedding of \<^verbatim>\<open>main.go\<close>. Go strings and byte slices are lists of
  bytes (\<open>string\<close>), \<^verbatim>\<open>uint64\<close> and \<^verbatim>\<open>int64\<close> are 64-bit words (\<open>+\<close> and
  \<open>*\<close> wrap, \<open>sint\<close> reads an \<^verbatim>\<open>int64\<close>), the bbolt database is an explicit state that
  every operation takes and returns, \<^verbatim>\<open>time.Now().UTC().UnixNano()\<close> is an argument, and
  every error return of the source is a value.
\<close>

type_synonym bytes = string

datatype error =
    EOF
  | ErrUnexpectedEOF
  | GobDecodeError
  | GobMessageTooBig
  | ErrDatabaseNotOpen
  | ErrKeyRequired
  | ErrKeyTooLarge
  | ErrValueTooLarge
  | ErrSyntax
  | ErrRange

subsection \<open>The record (main.go, lines 48 to 62)\<close>

text \<open>
  \<^verbatim>\<open>WpasteFile\<close>. The field \<^verbatim>\<open>id\<close> is written \<open>id'\<close> here; it is the only field whose
  Go name starts with a lower-case letter, that is, the only unexported one.
\<close>

record WpasteFile =
  id' :: "64 word"
  Name :: string
  Data :: string
  AccessPassword :: string
  EditPassword :: string
  Created :: "64 word"
  ExpiresAfter :: "64 word"
  Edited :: "64 word"

text \<open>The zero value of the struct, \<^verbatim>\<open>var wpaste WpasteFile\<close>.\<close>

definition zeroWpasteFile :: WpasteFile where
  "zeroWpasteFile =
     \<lparr>id' = 0, Name = [], Data = [], AccessPassword = [], EditPassword = [],
      Created = 0, ExpiresAfter = 0, Edited = 0\<rparr>"

subsection \<open>The wire format of encoding/gob\<close>

text \<open>
  \<^verbatim>\<open>Serialize\<close> and \<^verbatim>\<open>DeserializeWpasteFile\<close> are one call each into Go's
  \<^verbatim>\<open>encoding/gob\<close>. The definitions of this subsection follow the wire format that package
  documents, for the one type this program encodes:
  \<^item> an unsigned integer below 128 is one byte; any other is its minimal big-endian bytes
    after one byte holding their count, negated;
  \<^item> a signed integer \<open>i\<close> travels inside an unsigned one: \<^verbatim>\<open>(^i << 1) | 1\<close> when
    \<open>i < 0\<close>, \<^verbatim>\<open>i << 1\<close> otherwise;
  \<^item> a string is its length, then its bytes;
  \<^item> a struct is the sequence of its exported fields that do not hold the zero value, each
    after the distance of its field number from the one sent before (starting at \<open>-1\<close>),
    closed by a zero;
  \<^item> a value is sent as a message (its length, the type id, the value), after a message
    that defines the type. Every encoder is new here, so every stream starts with the
    definition, and the first type a process defines has id 65.
\<close>

function bigEndian :: "nat \<Rightarrow> bytes" where
  "bigEndian n = (if n = 0 then [] else bigEndian (n div 256) @ [char_of (n mod 256)])"
  by pat_completeness auto
termination
  by (relation "measure (\<lambda>n. n)") auto

declare bigEndian.simps [simp del]

definition fromBigEndian :: "bytes \<Rightarrow> nat" where
  \<comment> \<open>\<^verbatim>\<open>for _, b := range buf[0:n] { x = x<<8 | uint64(b) }\<close>\<close>
  "fromBigEndian bs = foldl (\<lambda>x b. x * 256 + of_char b) 0 bs"

definition encodeUint :: "64 word \<Rightarrow> bytes" where
  "encodeUint x =
     (if x \<le> 0x7F then [char_of (unat x)]
      else let bs = bigEndian (unat x) in char_of (256 - length bs) # bs)"

definition decodeUint :: "bytes \<Rightarrow> (64 word \<times> bytes) option" where
  "decodeUint buf =
     (case buf of
        [] \<Rightarrow> None
      | b # rest \<Rightarrow>
          if (of_char b :: nat) \<le> 0x7F then Some (of_nat (of_char b), rest)
          else let n = 256 - of_char b in
            if n > 8 then None
            else if length rest < n then None
            else Some (of_nat (fromBigEndian (take n rest)), drop n rest))"

definition encodeInt :: "64 word \<Rightarrow> bytes" where
  "encodeInt i =
     encodeUint (if sint i < 0 then push_bit 1 (NOT i) OR 1 else push_bit 1 i)"

definition decodeInt :: "bytes \<Rightarrow> (64 word \<times> bytes) option" where
  "decodeInt buf =
     (case decodeUint buf of
        None \<Rightarrow> None
      | Some (x, rest) \<Rightarrow>
          Some (if x AND 1 \<noteq> 0 then NOT (drop_bit 1 x) else drop_bit 1 x, rest))"

definition encodeString :: "string \<Rightarrow> bytes" where
  "encodeString s = encodeUint (of_nat (length s)) @ s"

text \<open>The limit on the length of a message, \<^verbatim>\<open>tooBig\<close>, on a 64-bit platform.\<close>

definition tooBig :: nat where
  "tooBig = 2 ^ 33"

definition decodeString :: "bytes \<Rightarrow> (string \<times> bytes) option" where
  "decodeString buf =
     (case decodeUint buf of
        None \<Rightarrow> None
      | Some (n, rest) \<Rightarrow>
          if sint n < 0 \<or> length rest < unat n \<or> tooBig \<le> unat n then None
          else Some (take (unat n) rest, drop (unat n) rest))"

datatype gobValue = GobString string | GobInt "64 word"

fun isZeroValue :: "gobValue \<Rightarrow> bool" where
  "isZeroValue (GobString s) = (s = [])"
| "isZeroValue (GobInt i) = (i = 0)"

fun encodeValue :: "gobValue \<Rightarrow> bytes" where
  "encodeValue (GobString s) = encodeString s"
| "encodeValue (GobInt i) = encodeInt i"

text \<open>
  The fields gob sees, by field number: the exported ones, in the order of the struct.
  \<open>id'\<close> is not among them.
\<close>

definition exportedFields :: "WpasteFile \<Rightarrow> gobValue list" where
  "exportedFields w =
     [GobString (Name w), GobString (Data w), GobString (AccessPassword w),
      GobString (EditPassword w), GobInt (Created w), GobInt (ExpiresAfter w),
      GobInt (Edited w)]"

text \<open>
  \<open>encodeStruct prev i vs\<close>: \<open>prev\<close> is the field number sent last, \<open>i\<close> the number of
  the head of \<open>vs\<close>.
\<close>

fun encodeStruct :: "int \<Rightarrow> int \<Rightarrow> gobValue list \<Rightarrow> bytes" where
  "encodeStruct prev i [] = encodeUint 0"
| "encodeStruct prev i (v # vs) =
     (if isZeroValue v then encodeStruct prev (i + 1) vs
      else encodeUint (word_of_int (i - prev)) @ encodeValue v @ encodeStruct i (i + 1) vs)"

definition setString :: "nat \<Rightarrow> string \<Rightarrow> WpasteFile \<Rightarrow> WpasteFile" where
  "setString k s w =
     (if k = 0 then w\<lparr>Name := s\<rparr>
      else if k = 1 then w\<lparr>Data := s\<rparr>
      else if k = 2 then w\<lparr>AccessPassword := s\<rparr>
      else w\<lparr>EditPassword := s\<rparr>)"

definition setInt :: "nat \<Rightarrow> 64 word \<Rightarrow> WpasteFile \<Rightarrow> WpasteFile" where
  "setInt k i w =
     (if k = 4 then w\<lparr>Created := i\<rparr>
      else if k = 5 then w\<lparr>ExpiresAfter := i\<rparr>
      else w\<lparr>Edited := i\<rparr>)"

definition decodeField :: "nat \<Rightarrow> WpasteFile \<Rightarrow> bytes \<Rightarrow> (WpasteFile \<times> bytes) option" where
  "decodeField k w buf =
     (if k < 4 then
        (case decodeString buf of
           None \<Rightarrow> None
         | Some (s, rest) \<Rightarrow> Some (setString k s w, rest))
      else
        (case decodeInt buf of
           None \<Rightarrow> None
         | Some (i, rest) \<Rightarrow> Some (setInt k i w, rest)))"

lemma decodeUint_shorter: "decodeUint buf = Some (x, rest) \<Longrightarrow> length rest < length buf"
  by (auto simp: decodeUint_def Let_def split: list.splits if_splits)

lemma decodeField_shorter:
  "decodeField k w buf = Some (w', rest) \<Longrightarrow> length rest < length buf"
  by (auto simp: decodeField_def decodeString_def decodeInt_def
      split: if_splits option.splits dest!: decodeUint_shorter)

text \<open>
  gob's \<^verbatim>\<open>decodeStruct\<close>: \<^verbatim>\<open>for state.b.Len() > 0\<close>, read the delta; a negative one
  and one that leaves the seven fields are errors, zero ends the struct.
\<close>

function decodeStruct :: "int \<Rightarrow> WpasteFile \<Rightarrow> bytes \<Rightarrow> WpasteFile option" where
  "decodeStruct fieldnum w buf =
     (if buf = [] then Some w
      else case decodeUint buf of
        None \<Rightarrow> None
      | Some (delta, rest) \<Rightarrow>
          if sint delta < 0 then None
          else if delta = 0 then Some w
          else if fieldnum \<ge> 7 - sint delta then None
          else (case decodeField (nat (fieldnum + sint delta)) w rest of
                  None \<Rightarrow> None
                | Some (w', rest') \<Rightarrow> decodeStruct (fieldnum + sint delta) w' rest'))"
  by pat_completeness auto
termination
proof (relation "measure (\<lambda>(fieldnum, w, buf). length buf)", goal_cases)
  case 1
  show ?case by simp
next
  case (2 fieldnum w buf x2 delta rest x2a w' rest')
  from 2 have "length rest < length buf"
    using decodeUint_shorter [of buf delta rest] by simp
  moreover from 2 have "length rest' < length rest"
    using decodeField_shorter [of _ w rest w' rest'] by simp
  ultimately show ?case by simp
qed

declare decodeStruct.simps [simp del]

text \<open>
  The message that defines the type: a \<^verbatim>\<open>wireType\<close> whose \<^verbatim>\<open>StructT\<close> (field 2)
  holds the \<^verbatim>\<open>CommonType\<close> (name and id 65) and the seven fields, each with its name and
  the id of its type (6 for \<^verbatim>\<open>string\<close>, 2 for \<^verbatim>\<open>int\<close>).
\<close>

definition wireField :: "string \<times> 64 word \<Rightarrow> bytes" where
  "wireField f =
     encodeUint 1 @ encodeString (fst f) @ encodeUint 1 @ encodeInt (snd f) @ encodeUint 0"

definition typeDefinitionBody :: bytes where
  "typeDefinitionBody =
     encodeInt (- 65) @ encodeUint 3
     @ encodeUint 1
     @ encodeUint 1 @ encodeString ''WpasteFile'' @ encodeUint 1 @ encodeInt 65
     @ encodeUint 0
     @ encodeUint 1 @ encodeUint 7
     @ concat (map wireField
         [(''Name'', 6), (''Data'', 6), (''AccessPassword'', 6), (''EditPassword'', 6),
          (''Created'', 2), (''ExpiresAfter'', 2), (''Edited'', 2)])
     @ encodeUint 0
     @ encodeUint 0"

definition typeDefinition :: bytes where
  "typeDefinition = encodeUint (of_nat (length typeDefinitionBody)) @ typeDefinitionBody"

definition valueMessage :: "WpasteFile \<Rightarrow> bytes" where
  "valueMessage w = encodeInt 65 @ encodeStruct (- 1) 0 (exportedFields w)"

subsection \<open>Serialize and DeserializeWpasteFile (main.go, lines 64 to 78)\<close>

text \<open>What a new encoder writes for \<open>w\<close>: the definition of the type, then the value.\<close>

definition gobStream :: "WpasteFile \<Rightarrow> bytes" where
  "gobStream w =
     typeDefinition @ encodeUint (of_nat (length (valueMessage w))) @ valueMessage w"

text \<open>The encoder refuses a message of \<^verbatim>\<open>tooBig\<close> bytes or more.\<close>

definition Serialize :: "WpasteFile \<Rightarrow> error + bytes" where
  "Serialize w =
     (if tooBig \<le> length (valueMessage w) then Inl GobMessageTooBig
      else Inr (gobStream w))"

text \<open>
  The decoder takes one message off the stream at a time: the length, then that many
  bytes. The end of the input before the first message is \<^verbatim>\<open>io.EOF\<close>; the end inside
  a message, or after the definition of the type and before a value, is
  \<^verbatim>\<open>io.ErrUnexpectedEOF\<close>.
\<close>

definition recvMessage :: "bytes \<Rightarrow> error + (bytes \<times> bytes)" where
  "recvMessage buf =
     (case decodeUint buf of
        None \<Rightarrow> Inl (if buf = [] then EOF else ErrUnexpectedEOF)
      | Some (n, rest) \<Rightarrow>
          if tooBig \<le> unat n then Inl GobDecodeError
          else if length rest < unat n then Inl ErrUnexpectedEOF
          else Inr (take (unat n) rest, drop (unat n) rest))"

text \<open>
  The decoder accepts the streams the encoder above writes: the message that defines the
  type, then one value message of that type; bytes after it are not read. Package gob
  accepts more (another definition of a type with fields of these names), which this
  program never writes; such a stream is an error here. Apart from the round trip, the
  proofs below use the decoder only through the value it returns.
\<close>

definition DeserializeWpasteFile :: "bytes \<Rightarrow> error + WpasteFile" where
  "DeserializeWpasteFile d =
     (case recvMessage d of
        Inl err \<Rightarrow> Inl err
      | Inr (first, rest) \<Rightarrow>
          if first \<noteq> typeDefinitionBody then Inl GobDecodeError
          else (case recvMessage rest of
                  Inl err \<Rightarrow> Inl (if err = EOF then ErrUnexpectedEOF else err)
                | Inr (message, rest') \<Rightarrow>
                    (case decodeInt message of
                       None \<Rightarrow> Inl GobDecodeError
                     | Some (tid, buf) \<Rightarrow>
                         if tid \<noteq> 65 then Inl GobDecodeError
                         else (case decodeStruct (- 1) zeroWpasteFile buf of
                                 None \<Rightarrow> Inl GobDecodeError
                               | Some w \<Rightarrow> Inr w))))"

subsection \<open>The lifecycle predicates (main.go, lines 80 to 109)\<close>

text \<open>
  \<^verbatim>\<open>Expired\<close> reads the clock; \<open>now\<close> is that reading. The sum is Go's \<^verbatim>\<open>int64\<close>
  addition, which wraps, and the comparison is signed.
\<close>

definition Expired :: "WpasteFile \<Rightarrow> 64 word \<Rightarrow> bool" where
  "Expired w now =
     (if ExpiresAfter w \<noteq> 0 then sint now > sint (Created w + ExpiresAfter w) else False)"

text \<open>A \<^verbatim>\<open>*WpasteFile\<close> that may be nil is an \<open>option\<close>; the test
  \<^verbatim>\<open>!file.Exist()\<close> of the handlers is their case \<open>None\<close>.\<close>

definition Exist :: "WpasteFile option \<Rightarrow> bool" where
  "Exist w = (w \<noteq> None)"

definition AllowAccess :: "WpasteFile \<Rightarrow> string \<Rightarrow> bool" where
  "AllowAccess w password =
     (if length (AccessPassword w) = 0 \<or> password = AccessPassword w then True else False)"

definition AllowEdit :: "WpasteFile \<Rightarrow> string \<Rightarrow> bool" where
  "AllowEdit w password =
     (if length (EditPassword w) = 0 \<or> password \<noteq> EditPassword w then False else True)"

subsection \<open>The database\<close>

text \<open>
  The bbolt database with its one bucket, \<^verbatim>\<open>files\<close>: whether it is open (a transaction
  on a closed database fails to begin), the entries of the bucket in the order a cursor
  visits them (by key, bytewise), and the bucket's sequence. A transaction that begins
  also commits: failures of the disk are outside the model.
\<close>

record DB =
  opened :: bool
  files :: "(bytes \<times> bytes) list"
  sequence :: "64 word"

definition MaxKeySize :: nat where
  "MaxKeySize = 32768"

definition MaxValueSize :: nat where
  "MaxValueSize = 2 ^ 31 - 2"

definition bucketGet :: "(bytes \<times> bytes) list \<Rightarrow> bytes \<Rightarrow> bytes option" where
  "bucketGet es k = map_of es k"

fun bucketInsert :: "bytes \<Rightarrow> bytes \<Rightarrow> (bytes \<times> bytes) list \<Rightarrow> (bytes \<times> bytes) list" where
  "bucketInsert k v [] = [(k, v)]"
| "bucketInsert k v (e # es) =
     (if k = fst e then (k, v) # es
      else if k < fst e then (k, v) # e # es
      else e # bucketInsert k v es)"

definition bucketPut ::
  "bytes \<Rightarrow> bytes \<Rightarrow> (bytes \<times> bytes) list \<Rightarrow> error + (bytes \<times> bytes) list" where
  "bucketPut k v es =
     (if length k = 0 then Inl ErrKeyRequired
      else if length k > MaxKeySize then Inl ErrKeyTooLarge
      else if length v > MaxValueSize then Inl ErrValueTooLarge
      else Inr (bucketInsert k v es))"

definition bucketDelete :: "bytes \<Rightarrow> (bytes \<times> bytes) list \<Rightarrow> (bytes \<times> bytes) list" where
  "bucketDelete k es = filter (\<lambda>e. fst e \<noteq> k) es"

text \<open>\<^verbatim>\<open>strconv.FormatUint(id, 10)\<close>.\<close>

function FormatUint :: "nat \<Rightarrow> string" where
  "FormatUint n =
     (if n < 10 then [char_of (48 + n)]
      else FormatUint (n div 10) @ [char_of (48 + n mod 10)])"
  by pat_completeness auto
termination
  by (relation "measure (\<lambda>n. n)") auto

declare FormatUint.simps [simp del]

definition key :: "64 word \<Rightarrow> bytes" where
  "key i = FormatUint (unat i)"

subsection \<open>Save, Delete, OpenWpasteByName, CheckUnique (main.go, lines 111 to 198)\<close>

text \<open>
  \<^verbatim>\<open>Save\<close> has a pointer receiver and sets \<^verbatim>\<open>w.id\<close>: the model returns the error, the
  record and the database. The error of \<^verbatim>\<open>Put\<close> is dropped, as in the source, and so is
  that of \<^verbatim>\<open>NextSequence\<close>, which a writable transaction never gives.
\<close>

definition Save :: "WpasteFile \<Rightarrow> DB \<Rightarrow> error option \<times> WpasteFile \<times> DB" where
  "Save w db =
     (if \<not> opened db then (Some ErrDatabaseNotOpen, w, db)
      else case Serialize w of
        Inl err \<Rightarrow> (Some err, w, db)
      | Inr f \<Rightarrow>
          let s = (if id' w = 0 then sequence db + 1 else sequence db);
              w' = (if id' w = 0 then w\<lparr>id' := s\<rparr> else w);
              es = (case bucketPut (key (id' w')) f (files db) of
                      Inl err \<Rightarrow> files db
                    | Inr es' \<Rightarrow> es')
          in (None, w', db\<lparr>files := es, sequence := s\<rparr>))"

definition Delete :: "WpasteFile \<Rightarrow> DB \<Rightarrow> error option \<times> DB" where
  "Delete w db =
     (if \<not> opened db then (Some ErrDatabaseNotOpen, db)
      else (None, db\<lparr>files := bucketDelete (key (id' w)) (files db)\<rparr>))"

text \<open>
  The loop of \<^verbatim>\<open>OpenWpasteByName\<close>, \<^verbatim>\<open>for id := files.Sequence(); id > 0; id--\<close>, by
  recursion on \<open>id\<close>.
\<close>

fun lookupFrom :: "string \<Rightarrow> (bytes \<times> bytes) list \<Rightarrow> nat \<Rightarrow> error + WpasteFile option" where
  "lookupFrom name es 0 = Inr None"
| "lookupFrom name es (Suc n) =
     (case bucketGet es (FormatUint (Suc n)) of
        None \<Rightarrow> lookupFrom name es n
      | Some v \<Rightarrow>
          if length v = 0 then lookupFrom name es n
          else (case DeserializeWpasteFile v of
                  Inl err \<Rightarrow> Inl err
                | Inr f \<Rightarrow>
                    if Name f = name then Inr (Some (f\<lparr>id' := of_nat (Suc n)\<rparr>))
                    else lookupFrom name es n))"

definition OpenWpasteByName :: "string \<Rightarrow> DB \<Rightarrow> error + WpasteFile option" where
  "OpenWpasteByName name db =
     (if \<not> opened db then Inl ErrDatabaseNotOpen
      else lookupFrom name (files db) (unat (sequence db)))"

text \<open>
  \<^verbatim>\<open>reflect.ValueOf(*f).FieldByName(field).String()\<close>: the string of a string field, and
  the placeholders of package \<^verbatim>\<open>reflect\<close> for a field of another kind or none.
\<close>

definition fieldString :: "string \<Rightarrow> WpasteFile \<Rightarrow> string" where
  "fieldString field f =
     (if field = ''Name'' then Name f
      else if field = ''Data'' then Data f
      else if field = ''AccessPassword'' then AccessPassword f
      else if field = ''EditPassword'' then EditPassword f
      else if field = ''id'' then ''<uint64 Value>''
      else if field = ''Created'' \<or> field = ''ExpiresAfter'' \<or> field = ''Edited''
        then ''<int64 Value>''
      else ''<invalid Value>'')"

text \<open>The cursor loop of \<^verbatim>\<open>CheckUnique\<close>; \<open>value\<close> is the string the callers pass.\<close>

fun uniqueAmong :: "string \<Rightarrow> string \<Rightarrow> (bytes \<times> bytes) list \<Rightarrow> bool" where
  "uniqueAmong field val [] = True"
| "uniqueAmong field val (e # es) =
     (case DeserializeWpasteFile (snd e) of
        Inl err \<Rightarrow> uniqueAmong field val es
      | Inr f \<Rightarrow> if fieldString field f = val then False else uniqueAmong field val es)"

definition CheckUnique :: "string \<Rightarrow> string \<Rightarrow> DB \<Rightarrow> bool" where
  "CheckUnique field val db =
     (if \<not> opened db then False else uniqueAmong field val (files db))"

subsection \<open>Requests and responses\<close>

text \<open>
  What the handlers read of a request: the declared length of the body, the form values
  (\<^verbatim>\<open>FormValue\<close> gives the first value of a key, the empty string when there is none)
  and the path variable \<^verbatim>\<open>id\<close>. A response writer keeps the first status written; a
  body written before any status makes it 200, as does writing nothing.
\<close>

record Request =
  ContentLength :: int
  Form :: "(string \<times> string) list"
  pathId :: string

definition FormValue :: "Request \<Rightarrow> string \<Rightarrow> string" where
  "FormValue r k = (case map_of (Form r) k of None \<Rightarrow> [] | Some v \<Rightarrow> v)"

record Response =
  wroteHeader :: bool
  status :: nat
  body :: string

definition newResponse :: Response where
  "newResponse = \<lparr>wroteHeader = False, status = 200, body = []\<rparr>"

definition WriteHeader :: "nat \<Rightarrow> Response \<Rightarrow> Response" where
  "WriteHeader code w = (if wroteHeader w then w else w\<lparr>wroteHeader := True, status := code\<rparr>)"

definition Write :: "string \<Rightarrow> Response \<Rightarrow> Response" where
  "Write b w = (let w' = WriteHeader 200 w in w'\<lparr>body := body w' @ b\<rparr>)"

definition HTTPError :: "Response \<Rightarrow> nat \<Rightarrow> string \<Rightarrow> Response" where
  "HTTPError w code description = Write description (WriteHeader code w)"

definition HTTPServerError :: "Response \<Rightarrow> Response" where
  "HTTPServerError w = HTTPError w 500 ''500 - Something bad happened''"

text \<open>The message of status 400, \<^verbatim>\<open>400 - "f" field required\<close>.\<close>

definition fieldRequired :: string where
  "fieldRequired = ''400 - '' @ [char_of (34 :: nat)] @ ''f'' @ [char_of (34 :: nat)] @ '' field required''"

subsection \<open>UploadFile (main.go, lines 222 to 273)\<close>

text \<open>
  \<^verbatim>\<open>strconv.ParseInt(e, 10, 64)\<close>: an optional sign, then decimal digits only; a value
  outside \<^verbatim>\<open>int64\<close> is a range error.
\<close>

definition digitValue :: "char \<Rightarrow> nat option" where
  "digitValue c =
     (if 48 \<le> (of_char c :: nat) \<and> (of_char c :: nat) \<le> 57 then Some (of_char c - 48) else None)"

fun parseDigits :: "nat \<Rightarrow> string \<Rightarrow> nat option" where
  "parseDigits acc [] = Some acc"
| "parseDigits acc (c # cs) =
     (case digitValue c of
        None \<Rightarrow> None
      | Some d \<Rightarrow> parseDigits (acc * 10 + d) cs)"

definition ParseInt :: "string \<Rightarrow> error + 64 word" where
  "ParseInt s =
     (case s of
        [] \<Rightarrow> Inl ErrSyntax
      | c # cs \<Rightarrow>
          let neg = (c = CHR ''-'');
              ds = (if c = CHR ''+'' \<or> c = CHR ''-'' then cs else s)
          in if ds = [] then Inl ErrSyntax
             else (case parseDigits 0 ds of
                     None \<Rightarrow> Inl ErrSyntax
                   | Some un \<Rightarrow>
                       if \<not> neg \<and> un \<ge> 2 ^ 63 then Inl ErrRange
                       else if neg \<and> un > 2 ^ 63 then Inl ErrRange
                       else Inr (if neg then - of_nat un else of_nat un)))"

text \<open>
  \<^verbatim>\<open>RandomString(3)\<close> draws from the random source. The draws are an argument, in the
  order the loop \<^verbatim>\<open>for !CheckUnique("Name", name)\<close> takes them; the loop has no bound in
  the source, and \<open>None\<close> says that the draws given were all taken.
\<close>

fun pickName :: "string list \<Rightarrow> DB \<Rightarrow> string option" where
  "pickName [] db = None"
| "pickName (d # ds) db = (if CheckUnique ''Name'' d db then Some d else pickName ds db)"

text \<open>\<^verbatim>\<open>int64(time.Second)\<close>.\<close>

definition Second :: "64 word" where
  "Second = 1000000000"

text \<open>The handler from \<^verbatim>\<open>wpaste.Name = name\<close> on.\<close>

definition storeUpload :: "Request \<Rightarrow> Response \<Rightarrow> string \<Rightarrow> WpasteFile \<Rightarrow> DB \<Rightarrow> Response \<times> DB" where
  "storeUpload r w name wpaste0 db =
     (let wpaste = wpaste0\<lparr>Name := name\<rparr>;
          e = FormValue r ''e''
      in case (if length e \<noteq> 0 then ParseInt e else Inr 0) of
        Inl err \<Rightarrow> (HTTPError w 422 ''422 - Invalid time format'', db)
      | Inr addTime \<Rightarrow>
          if length e \<noteq> 0 \<and> sint addTime < 0
          then (HTTPError w 400 ''400 - Time shold be positive'', db)
          else
            let wpaste1 = (if length e \<noteq> 0 then wpaste\<lparr>ExpiresAfter := addTime * Second\<rparr>
                           else wpaste);
                wpaste2 = wpaste1\<lparr>AccessPassword := FormValue r ''ap'',
                                  EditPassword := FormValue r ''ep''\<rparr>
            in case Save wpaste2 db of
              (Some err, _, db') \<Rightarrow> (HTTPServerError w, db')
            | (None, _, db') \<Rightarrow> (Write name w, db'))"

definition UploadFile ::
  "Request \<Rightarrow> 64 word \<Rightarrow> string list \<Rightarrow> DB \<Rightarrow> (Response \<times> DB) option" where
  "UploadFile r now draws db =
     (let w = newResponse in
      if ContentLength r > 2097152
      then Some (HTTPError w 413 ''413 - Max content size is 2MiB'', db)
      else if length (FormValue r ''f'') = 0
      then Some (HTTPError w 400 fieldRequired, db)
      else
        let wpaste = zeroWpasteFile\<lparr>Created := now, Data := FormValue r ''f''\<rparr>;
            name = FormValue r ''name''
        in if length name = 0
           then (case pickName draws db of
                   None \<Rightarrow> None
                 | Some name' \<Rightarrow> Some (storeUpload r w name' wpaste db))
           else if \<not> CheckUnique ''Name'' name db
           then Some (HTTPError w 409 ''409 - This filename already taken!'', db)
           else Some (storeUpload r w name wpaste db))"

subsection \<open>SendFile, EditFile, DeleteFile (main.go, lines 275 to 359)\<close>

definition SendFile :: "Request \<Rightarrow> 64 word \<Rightarrow> DB \<Rightarrow> Response" where
  "SendFile r now db =
     (let w = newResponse in
      case OpenWpasteByName (pathId r) db of
        Inl err \<Rightarrow> HTTPServerError w
      | Inr file \<Rightarrow>
          (case file of
             None \<Rightarrow> HTTPError w 404 ''404 - File not found''
           | Some f \<Rightarrow>
               if Expired f now then HTTPError w 410 ''410 - File is no longer available''
               else if \<not> AllowAccess f (FormValue r ''ap'')
               then HTTPError w 401 ''401 - Invalid password''
               else Write (Data f) w))"

text \<open>
  \<^verbatim>\<open>EditFile\<close> reads the clock twice: \<open>now\<close> in \<^verbatim>\<open>Expired\<close> and \<open>now'\<close> for
  \<^verbatim>\<open>Edited\<close>. The branch of the empty \<^verbatim>\<open>f\<close> (lines 303 to 305) writes the error and
  has no \<^verbatim>\<open>return\<close>: the handler goes on with the response it has written to.
\<close>

definition EditFile :: "Request \<Rightarrow> 64 word \<Rightarrow> 64 word \<Rightarrow> DB \<Rightarrow> Response \<times> DB" where
  "EditFile r now now' db =
     (if ContentLength r > 10485760
      then (HTTPError newResponse 413 ''413 - Max content size is 2MiB'', db)
      else
        let w = (if length (FormValue r ''f'') = 0 then HTTPError newResponse 400 fieldRequired
                 else newResponse)
        in case OpenWpasteByName (pathId r) db of
          Inl err \<Rightarrow> (HTTPServerError w, db)
        | Inr file \<Rightarrow>
            (case file of
               None \<Rightarrow> (HTTPError w 404 ''404 - File not found'', db)
             | Some f \<Rightarrow>
                 if Expired f now
                 then (HTTPError w 410 ''410 - File is no longer available'', db)
                 else if \<not> AllowEdit f (FormValue r ''ep'')
                 then (HTTPError w 401 ''401 - Invalid password'', db)
                 else
                   (case Save (f\<lparr>Data := FormValue r ''f'', Edited := now'\<rparr>) db of
                      (Some err, _, db') \<Rightarrow> (HTTPServerError w, db')
                    | (None, _, db') \<Rightarrow> (w, db'))))"

definition DeleteFile :: "Request \<Rightarrow> DB \<Rightarrow> Response \<times> DB" where
  "DeleteFile r db =
     (let w = newResponse in
      case OpenWpasteByName (pathId r) db of
        Inl err \<Rightarrow> (HTTPServerError w, db)
      | Inr file \<Rightarrow>
          (case file of
             None \<Rightarrow> (HTTPError w 404 ''404 - File not found'', db)
           | Some f \<Rightarrow>
               if \<not> AllowEdit f (FormValue r ''ep'')
               then (HTTPError w 401 ''401 - Invalid password'', db)
               else (case Delete f db of
                       (Some err, db') \<Rightarrow> (HTTPServerError w, db')
                     | (None, db') \<Rightarrow> (w, db'))))"

subsection \<open>AutoDeleter (main.go, lines 374 to 410)\<close>

text \<open>
  The callback of \<^verbatim>\<open>files.ForEach\<close> appends to \<^verbatim>\<open>toDelete\<close>, which outlives the
  iteration. \<^verbatim>\<open>ForEach\<close> stops at the first error its callback returns, and the
  callback returns the error of \<^verbatim>\<open>DeserializeWpasteFile\<close>. The callback reads the clock
  at each entry: \<open>now k\<close> is the reading at the entry of key \<open>k\<close>.
\<close>

fun forEachExpired ::
  "(bytes \<Rightarrow> 64 word) \<Rightarrow> 64 word \<Rightarrow> (bytes \<times> bytes) list \<Rightarrow> bytes list \<Rightarrow> bytes list" where
  "forEachExpired now add [] toDelete = toDelete"
| "forEachExpired now add (e # es) toDelete =
     (if length (snd e) = 0 then forEachExpired now add es toDelete
      else case DeserializeWpasteFile (snd e) of
        Inl err \<Rightarrow> toDelete
      | Inr f \<Rightarrow>
          if ExpiresAfter f \<noteq> 0
             \<and> sint (now (fst e)) > sint (Created f + ExpiresAfter f + add)
          then forEachExpired now add es (toDelete @ [fst e])
          else forEachExpired now add es toDelete)"

text \<open>One tick of the timer: the body of \<^verbatim>\<open>for range timer.C\<close>.\<close>

definition sweep :: "(bytes \<Rightarrow> 64 word) \<Rightarrow> 64 word \<Rightarrow> DB \<Rightarrow> DB" where
  "sweep now add db =
     (let toDelete = (if \<not> opened db then [] else forEachExpired now add (files db) [])
      in if length toDelete \<noteq> 0
         then (if \<not> opened db then db
               else db\<lparr>files := fold bucketDelete toDelete (files db)\<rparr>)
         else db)"

text \<open>\<^verbatim>\<open>AutoDeleter\<close> over the ticks that arrive, each with its clock readings.\<close>

fun AutoDeleter :: "(bytes \<Rightarrow> 64 word) list \<Rightarrow> 64 word \<Rightarrow> DB \<Rightarrow> DB" where
  "AutoDeleter [] add db = db"
| "AutoDeleter (now # ticks) add db = AutoDeleter ticks add (sweep now add db)"

subsection \<open>What the decoder assigns\<close>

text \<open>
  For the proofs about the decoder: the assignment it makes for a field that was sent,
  the kind of value each field number takes, and the result of a whole struct.
\<close>

fun storeField :: "nat \<Rightarrow> gobValue \<Rightarrow> WpasteFile \<Rightarrow> WpasteFile" where
  "storeField k (GobString s) w = setString k s w"
| "storeField k (GobInt i) w = setInt k i w"

fun fieldKind :: "nat \<Rightarrow> gobValue \<Rightarrow> bool" where
  "fieldKind k (GobString s) = (k < 4)"
| "fieldKind k (GobInt i) = (4 \<le> k)"

fun fieldKinds :: "nat \<Rightarrow> gobValue list \<Rightarrow> bool" where
  "fieldKinds k [] = True"
| "fieldKinds k (v # vs) = (fieldKind k v \<and> fieldKinds (Suc k) vs)"

fun assignFields :: "nat \<Rightarrow> gobValue list \<Rightarrow> WpasteFile \<Rightarrow> WpasteFile" where
  "assignFields k [] w = w"
| "assignFields k (v # vs) w =
     assignFields (Suc k) vs (if isZeroValue v then w else storeField k v w)"

subsection \<open>Sample data\<close>

text \<open>A record as an upload with both passwords leaves it, and one that expires a second
  after its creation.\<close>

definition sampleFile :: WpasteFile where
  "sampleFile =
     \<lparr>id' = 1, Name = ''abc'', Data = ''Hello, world!'', AccessPassword = ''secret'',
      EditPassword = ''pw'', Created = 1790000000000000000, ExpiresAfter = 0, Edited = 0\<rparr>"

definition expiringFile :: WpasteFile where
  "expiringFile =
     \<lparr>id' = 2, Name = ''old'', Data = ''42'', AccessPassword = ''secret'',
      EditPassword = ''pw'', Created = 1790000000000000000, ExpiresAfter = 1000000000,
      Edited = 0\<rparr>"

text \<open>Stores: one record; a live and an expiring one; two records of one name under a
  third of another; an entry that is no gob stream, newest, first and last. The id of a
  record is not in its stream: the key of its entry is what a lookup gives it.\<close>

definition sampleDB :: DB where
  "sampleDB = \<lparr>opened = True, files = [(''1'', gobStream sampleFile)], sequence = 1\<rparr>"

definition expiredDB :: DB where
  "expiredDB =
     \<lparr>opened = True,
      files = [(''1'', gobStream sampleFile), (''2'', gobStream expiringFile)],
      sequence = 2\<rparr>"

definition newerFile :: WpasteFile where
  "newerFile = sampleFile\<lparr>id' := 2, Data := ''newer''\<rparr>"

definition duplicateDB :: DB where
  "duplicateDB =
     \<lparr>opened = True,
      files = [(''1'', gobStream sampleFile), (''2'', gobStream newerFile),
               (''3'', gobStream expiringFile)],
      sequence = 3\<rparr>"

definition corruptNewerDB :: DB where
  "corruptNewerDB =
     \<lparr>opened = True,
      files = [(''1'', gobStream sampleFile), (''2'', ''x''), (''3'', gobStream expiringFile)],
      sequence = 3\<rparr>"

definition corruptFirstDB :: DB where
  "corruptFirstDB =
     \<lparr>opened = True, files = [(''1'', ''x''), (''2'', gobStream expiringFile)], sequence = 2\<rparr>"

definition corruptLastDB :: DB where
  "corruptLastDB =
     \<lparr>opened = True, files = [(''1'', gobStream expiringFile), (''2'', ''x'')], sequence = 2\<rparr>"

text \<open>A store whose newest entry has an empty value.\<close>

definition emptyNewerDB :: DB where
  "emptyNewerDB =
     \<lparr>opened = True, files = [(''1'', gobStream sampleFile), (''2'', [])], sequence = 2\<rparr>"

definition emptyDB :: DB where
  "emptyDB = \<lparr>opened = True, files = [], sequence = 0\<rparr>"

text \<open>Requests, a record that expires after 9000000000 seconds, and the grace period of
  \<^verbatim>\<open>main\<close>, four hours.\<close>

definition editWithoutF :: Request where
  "editWithoutF = \<lparr>ContentLength = 0, Form = [(''ep'', ''pw'')], pathId = ''abc''\<rparr>"

definition editRequest :: Request where
  "editRequest = \<lparr>ContentLength = 2, Form = [(''f'', ''43''), (''ep'', ''pw'')], pathId = ''abc''\<rparr>"

definition uploadTaken :: Request where
  "uploadTaken =
     \<lparr>ContentLength = 2, Form = [(''f'', ''43''), (''name'', ''abc'')], pathId = []\<rparr>"

definition uploadTakenWithoutF :: Request where
  "uploadTakenWithoutF = \<lparr>ContentLength = 0, Form = [(''name'', ''abc'')], pathId = []\<rparr>"

definition uploadLong :: Request where
  "uploadLong =
     \<lparr>ContentLength = 1, Form = [(''f'', ''x''), (''name'', ''abc''), (''e'', ''9000000000'')],
      pathId = []\<rparr>"

definition getAbc :: Request where
  "getAbc = \<lparr>ContentLength = 0, Form = [], pathId = ''abc''\<rparr>"

definition longLived :: WpasteFile where
  "longLived =
     \<lparr>id' = 1, Name = ''abc'', Data = ''x'', AccessPassword = [], EditPassword = [],
      Created = 1790000000000000000, ExpiresAfter = 9000000000000000000, Edited = 0\<rparr>"

definition grace :: "64 word" where
  "grace = 14400000000000"

subsection \<open>What a sweep collects\<close>

text \<open>For the lemmas about the sweep: the test of the callback of \<^verbatim>\<open>AutoDeleter\<close> on
  one entry.\<close>

definition due :: "(bytes \<Rightarrow> 64 word) \<Rightarrow> 64 word \<Rightarrow> bytes \<times> bytes \<Rightarrow> bool" where
  "due now add e =
     (case DeserializeWpasteFile (snd e) of
        Inl err \<Rightarrow> False
      | Inr f \<Rightarrow> snd e \<noteq> [] \<and> ExpiresAfter f \<noteq> 0
                 \<and> sint (now (fst e)) > sint (Created f + ExpiresAfter f + add))"

section \<open>Lemmas\<close>

subsection \<open>The wire format round trip\<close>

lemma fromBigEndian_snoc: "fromBigEndian (bs @ [b]) = fromBigEndian bs * 256 + of_char b"
  by (simp add: fromBigEndian_def)

lemma fromBigEndian_bigEndian: "fromBigEndian (bigEndian n) = n"
proof (induction n rule: bigEndian.induct)
  case (1 n)
  show ?case
  proof (cases "n = 0")
    case True
    then show ?thesis by (simp add: bigEndian.simps fromBigEndian_def)
  next
    case False
    with 1 show ?thesis
      by (subst bigEndian.simps) (simp add: fromBigEndian_snoc)
  qed
qed

lemma length_bigEndian: "n < 256 ^ k \<Longrightarrow> length (bigEndian n) \<le> k"
proof (induction n arbitrary: k rule: bigEndian.induct)
  case (1 n)
  show ?case
  proof (cases "n = 0")
    case True
    then show ?thesis by (simp add: bigEndian.simps)
  next
    case False
    with "1.prems" obtain k' where k: "k = Suc k'"
      by (cases k) auto
    with "1.prems" have "n div 256 < 256 ^ k'"
      by (simp add: less_mult_imp_div_less)
    with 1 False have "length (bigEndian (n div 256)) \<le> k'" by blast
    with False k show ?thesis
      by (subst bigEndian.simps) simp
  qed
qed

lemma bigEndian_nonempty: "0 < n \<Longrightarrow> bigEndian n \<noteq> []"
  by (subst bigEndian.simps) simp

lemma decodeUint_encodeUint: "decodeUint (encodeUint x @ rest) = Some (x, rest)"
proof (cases "x \<le> 0x7F")
  case True
  then have "unat x \<le> 127" by (simp add: word_le_nat_alt)
  then show ?thesis using True
    by (simp add: encodeUint_def decodeUint_def)
next
  case False
  define bs where "bs = bigEndian (unat x)"
  have "unat x < 256 ^ 8" using unsigned_less [of x] by simp
  then have le: "length bs \<le> 8" unfolding bs_def by (rule length_bigEndian)
  from False have "0 < unat x" by (simp add: word_le_nat_alt)
  then have ne: "bs \<noteq> []" unfolding bs_def by (rule bigEndian_nonempty)
  then have pos: "0 < length bs" by simp
  have val: "fromBigEndian bs = unat x" unfolding bs_def by (rule fromBigEndian_bigEndian)
  have c: "(of_char (char_of (256 - length bs)) :: nat) = 256 - length bs"
    using le pos by simp
  show ?thesis using False le pos val c
    by (simp add: encodeUint_def decodeUint_def Let_def bs_def [symmetric])
qed

lemma encodeUint_nonempty: "encodeUint x \<noteq> []"
  by (simp add: encodeUint_def Let_def)

lemma sint_neg_iff_bit: "sint (i :: 64 word) < 0 \<longleftrightarrow> bit i 63"
  using bit_last_iff [of i] by simp

lemma bit_shl1:
  "bit (push_bit (Suc 0) (w :: 64 word)) n \<longleftrightarrow> 0 < n \<and> n < 64 \<and> bit w (n - 1)"
  by (auto simp add: bit_push_bit_iff simp del: push_bit_Suc push_bit_of_Suc_0
      dest: bit_imp_le_length)

lemma bit_shr1: "bit (drop_bit (Suc 0) (w :: 64 word)) n \<longleftrightarrow> bit w (Suc n)"
  by (simp add: bit_drop_bit_eq del: drop_bit_Suc)

lemmas shift1 = bit_shl1 bit_shr1 bit_not_iff bit_or_iff bit_and_iff bit_1_iff

lemma zigzag_neg_flag: "(push_bit 1 (NOT i) OR 1) AND 1 = (1 :: 64 word)"
  by (rule bit_word_eqI) (auto simp: shift1 simp del: push_bit_Suc drop_bit_Suc)

lemma zigzag_neg_value:
  "bit i 63 \<Longrightarrow> NOT (drop_bit 1 (push_bit 1 (NOT i) OR 1)) = (i :: 64 word)"
  apply (rule bit_word_eqI)
  subgoal for n
    by (cases "n = 63") (auto simp: shift1 simp del: push_bit_Suc drop_bit_Suc)
  done

lemma zigzag_pos_flag: "push_bit 1 i AND 1 = (0 :: 64 word)"
  by (rule bit_word_eqI) (auto simp: shift1 simp del: push_bit_Suc drop_bit_Suc)

lemma zigzag_pos_value: "\<not> bit i 63 \<Longrightarrow> drop_bit 1 (push_bit 1 i) = (i :: 64 word)"
  apply (rule bit_word_eqI)
  subgoal for n
    by (cases "n = 63") (auto simp: shift1 simp del: push_bit_Suc drop_bit_Suc)
  done

lemma zigzag_decode:
  fixes i :: "64 word"
  defines "u \<equiv> (if sint i < 0 then push_bit 1 (NOT i) OR 1 else push_bit 1 i)"
  shows "(if u AND 1 \<noteq> 0 then NOT (drop_bit 1 u) else drop_bit 1 u) = i"
proof (cases "sint i < 0")
  case True
  then have b: "bit i 63" by (simp add: sint_neg_iff_bit)
  from True have u: "u = push_bit 1 (NOT i) OR 1" by (simp add: u_def)
  have "u AND 1 \<noteq> 0" unfolding u zigzag_neg_flag by simp
  moreover have "NOT (drop_bit 1 u) = i" unfolding u by (rule zigzag_neg_value [OF b])
  ultimately show ?thesis by simp
next
  case False
  then have b: "\<not> bit i 63" by (simp add: sint_neg_iff_bit)
  from False have u: "u = push_bit 1 i" by (simp add: u_def)
  have "\<not> u AND 1 \<noteq> 0" unfolding u zigzag_pos_flag by simp
  moreover have "drop_bit 1 u = i" unfolding u by (rule zigzag_pos_value [OF b])
  ultimately show ?thesis by simp
qed

lemma decodeInt_encodeInt: "decodeInt (encodeInt i @ rest) = Some (i, rest)"
  unfolding encodeInt_def decodeInt_def decodeUint_encodeUint
  using zigzag_decode [of i] by (simp only: option.case prod.case)

lemma unat_of_nat_tooBig: "n < tooBig \<Longrightarrow> unat (of_nat n :: 64 word) = n"
  by (simp add: tooBig_def unat_of_nat)

lemma sint_of_nat_tooBig: "n < tooBig \<Longrightarrow> \<not> sint (of_nat n :: 64 word) < 0"
proof -
  assume "n < tooBig"
  then have "n < 2 ^ 33" by (simp add: tooBig_def)
  then have "int n < 2 ^ 63" by simp
  then have "sint (of_nat n :: 64 word) = int n"
    by (simp add: signed_of_nat signed_take_bit_int_eq_self)
  then show ?thesis by simp
qed

lemma decodeString_encodeString:
  "length s < tooBig \<Longrightarrow> decodeString (encodeString s @ rest) = Some (s, rest)"
  by (simp add: decodeString_def encodeString_def decodeUint_encodeUint
      unat_of_nat_tooBig sint_of_nat_tooBig)


lemma decodeField_encodeValue:
  "fieldKind k v \<Longrightarrow> length (encodeValue v) < tooBig \<Longrightarrow>
   decodeField k w (encodeValue v @ rest) = Some (storeField k v w, rest)"
proof (cases v)
  case (GobString s)
  assume "fieldKind k v" "length (encodeValue v) < tooBig"
  with GobString have "k < 4" "length s < tooBig"
    by (simp_all add: encodeString_def)
  with GobString show ?thesis
    by (simp add: decodeField_def decodeString_encodeString)
next
  case (GobInt i)
  assume "fieldKind k v"
  with GobInt show ?thesis
    by (simp add: decodeField_def decodeInt_encodeInt)
qed

lemma decodeStruct_end: "decodeStruct prev w (encodeUint 0) = Some w"
proof -
  have "decodeUint (encodeUint 0 @ []) = Some (0, [])" by (rule decodeUint_encodeUint)
  then show ?thesis
    by (subst decodeStruct.simps) (simp add: encodeUint_nonempty)
qed

lemma decodeStruct_field:
  assumes "prev < int k" "- 1 \<le> prev" "k < 7"
    and "decodeField k w buf = Some (w', rest)"
  shows "decodeStruct prev w (encodeUint (word_of_int (int k - prev)) @ buf)
           = decodeStruct (int k) w' rest"
proof -
  let ?d = "word_of_int (int k - prev) :: 64 word"
  have small_delta: "sint (word_of_int x :: 64 word) = x" if "0 < x" "x \<le> 7" for x :: int
    using that by (simp add: signed_of_int signed_take_bit_int_eq_self)
  have s: "sint ?d = int k - prev"
    using assms(1-3) by (intro small_delta) simp_all
  then have nz: "?d \<noteq> 0" using assms(1) by auto
  have u: "decodeUint (encodeUint ?d @ buf) = Some (?d, buf)"
    by (rule decodeUint_encodeUint)
  show ?thesis
    apply (subst decodeStruct.simps)
    using assms s nz u by (simp add: encodeUint_nonempty)
qed

lemma decodeStruct_encodeStruct:
  "length (encodeStruct prev (int k) vs) < tooBig \<Longrightarrow> prev < int k \<Longrightarrow> - 1 \<le> prev \<Longrightarrow>
   k + length vs = 7 \<Longrightarrow> fieldKinds k vs \<Longrightarrow>
   decodeStruct prev w (encodeStruct prev (int k) vs) = Some (assignFields k vs w)"
proof (induction vs arbitrary: prev k w)
  case Nil
  then show ?case by (simp add: decodeStruct_end)
next
  case (Cons v vs)
  show ?case
  proof (cases "isZeroValue v")
    case True
    have "decodeStruct prev w (encodeStruct prev (int (Suc k)) vs)
            = Some (assignFields (Suc k) vs w)"
      using Cons.prems True by (intro Cons.IH) (simp_all add: add.commute)
    with True show ?thesis by (simp add: add.commute)
  next
    case False
    let ?tail = "encodeStruct (int k) (int (Suc k)) vs"
    from Cons.prems False have len: "length (encodeValue v) < tooBig" "length ?tail < tooBig"
      by (simp_all add: add.commute)
    from Cons.prems have k: "k < 7" "fieldKind k v" by simp_all
    have f: "decodeField k w (encodeValue v @ ?tail) = Some (storeField k v w, ?tail)"
      using k len by (simp add: decodeField_encodeValue)
    have "decodeStruct (int k) (storeField k v w) ?tail
            = Some (assignFields (Suc k) vs (storeField k v w))"
      using Cons.prems len by (intro Cons.IH) simp_all
    with False show ?thesis
      using decodeStruct_field [OF Cons.prems(2,3) k(1) f] by (simp add: add.commute)
  qed
qed

lemma assignFields_exported:
  "assignFields 0 (exportedFields w) zeroWpasteFile = w\<lparr>id' := 0\<rparr>"
  by (cases w) (simp add: exportedFields_def zeroWpasteFile_def setString_def setInt_def)

lemma decodeStruct_valueMessage:
  assumes "length (valueMessage w) < tooBig"
  shows "decodeStruct (- 1) zeroWpasteFile (encodeStruct (- 1) 0 (exportedFields w))
           = Some (w\<lparr>id' := 0\<rparr>)"
proof -
  from assms have "length (encodeStruct (- 1) (int 0) (exportedFields w)) < tooBig"
    by (simp add: valueMessage_def)
  then have "decodeStruct (- 1) zeroWpasteFile (encodeStruct (- 1) (int 0) (exportedFields w))
      = Some (assignFields 0 (exportedFields w) zeroWpasteFile)"
    by (rule decodeStruct_encodeStruct) (simp_all add: exportedFields_def)
  then show ?thesis by (simp add: assignFields_exported)
qed

lemma length_typeDefinitionBody: "length typeDefinitionBody = 118"
  by code_simp

lemma recvMessage_message:
  "length m < tooBig \<Longrightarrow> recvMessage (encodeUint (of_nat (length m)) @ m @ rest) = Inr (m, rest)"
  by (simp add: recvMessage_def decodeUint_encodeUint unat_of_nat_tooBig)

lemma recvMessage_typeDefinition:
  "recvMessage (typeDefinition @ rest) = Inr (typeDefinitionBody, rest)"
proof -
  have "length typeDefinitionBody < tooBig"
    by (simp add: length_typeDefinitionBody tooBig_def)
  then show ?thesis
    using recvMessage_message [of typeDefinitionBody rest] by (simp add: typeDefinition_def)
qed

lemma Deserialize_Serialize:
  assumes "Serialize w = Inr d"
  shows "DeserializeWpasteFile d = Inr (w\<lparr>id' := 0\<rparr>)"
proof -
  let ?m = "valueMessage w"
  from assms have small: "length ?m < tooBig"
    and d: "d = typeDefinition @ encodeUint (of_nat (length ?m)) @ ?m"
    by (auto simp: Serialize_def gobStream_def split: if_splits)
  have m1: "recvMessage d = Inr (typeDefinitionBody, encodeUint (of_nat (length ?m)) @ ?m)"
    unfolding d by (rule recvMessage_typeDefinition)
  have m2: "recvMessage (encodeUint (of_nat (length ?m)) @ ?m) = Inr (?m, [])"
    using recvMessage_message [OF small, of "[]"] by simp
  have tid: "decodeInt ?m = Some (65, encodeStruct (- 1) 0 (exportedFields w))"
    by (simp add: valueMessage_def decodeInt_encodeInt)
  show ?thesis
    using small by (simp add: DeserializeWpasteFile_def m1 m2 tid decodeStruct_valueMessage)
qed

lemma length_encodeUint: "length (encodeUint x) \<le> 9"
proof -
  have "unat x < 256 ^ 8" using unsigned_less [of x] by simp
  then have "length (bigEndian (unat x)) \<le> 8" by (rule length_bigEndian)
  then show ?thesis by (simp add: encodeUint_def Let_def)
qed

lemma length_encodeInt: "length (encodeInt i) \<le> 9"
  by (simp add: encodeInt_def length_encodeUint)

lemma length_encodeString: "length (encodeString s) \<le> 9 + length s"
  using length_encodeUint [of "of_nat (length s)"] by (simp add: encodeString_def)

lemma length_encodeStruct:
  "length (encodeStruct prev i vs) \<le> 9 + (\<Sum>v\<leftarrow>vs. 9 + length (encodeValue v))"
proof (induction vs arbitrary: prev i)
  case Nil
  then show ?case using length_encodeUint [of 0] by simp
next
  case (Cons v vs)
  show ?case
  proof (cases "isZeroValue v")
    case True
    then show ?thesis using Cons [of prev "i + 1"] by simp
  next
    case False
    then show ?thesis
      using Cons [of i "i + 1"] length_encodeUint [of "word_of_int (i - prev)"] by simp
  qed
qed

lemma length_valueMessage:
  "length (valueMessage w)
     \<le> 144 + (length (Name w) + length (Data w) + length (AccessPassword w)
              + length (EditPassword w))"
proof -
  have "length (encodeStruct (- 1) 0 (exportedFields w))
          \<le> 9 + (\<Sum>v\<leftarrow>exportedFields w. 9 + length (encodeValue v))"
    by (rule length_encodeStruct)
  moreover have "length (encodeInt 65) \<le> 9" by (rule length_encodeInt)
  ultimately show ?thesis
    using length_encodeString [of "Name w"] length_encodeString [of "Data w"]
      length_encodeString [of "AccessPassword w"] length_encodeString [of "EditPassword w"]
      length_encodeInt [of "Created w"] length_encodeInt [of "ExpiresAfter w"]
      length_encodeInt [of "Edited w"]
    by (simp add: valueMessage_def exportedFields_def)
qed

lemma valueMessage_small:
  "length (Name w) + length (Data w) + length (AccessPassword w) + length (EditPassword w)
     < 2 ^ 30 \<Longrightarrow> length (valueMessage w) < MaxValueSize - 200"
  using length_valueMessage [of w] by (simp add: MaxValueSize_def)

subsection \<open>Keys and buckets\<close>

lemma FormatUint_nonempty: "FormatUint n \<noteq> []"
  by (subst FormatUint.simps) simp

lemma FormatUint_digit: "n < 10 \<Longrightarrow> FormatUint n = [char_of (48 + n)]"
  by (subst FormatUint.simps) simp

lemma FormatUint_step:
  "\<not> n < 10 \<Longrightarrow> FormatUint n = FormatUint (n div 10) @ [char_of (48 + n mod 10)]"
  by (subst FormatUint.simps) simp

lemma digit_inj: "a < 10 \<Longrightarrow> b < 10 \<Longrightarrow> char_of (48 + a :: nat) = char_of (48 + b) \<Longrightarrow> a = b"
  by (simp add: char_of_eq_iff take_bit_nat_eq_self)

lemma FormatUint_inj: "FormatUint m = FormatUint n \<Longrightarrow> m = n"
proof (induction m arbitrary: n rule: FormatUint.induct)
  case (1 m)
  show ?case
  proof (cases "m < 10")
    case True
    then have m: "FormatUint m = [char_of (48 + m)]" by (rule FormatUint_digit)
    show ?thesis
    proof (cases "n < 10")
      case n: True
      then have "FormatUint n = [char_of (48 + n)]" by (rule FormatUint_digit)
      with m "1.prems" have "char_of (48 + m) = char_of (48 + n)" by simp
      with True n show ?thesis by (rule digit_inj)
    next
      case False
      then have "FormatUint n = FormatUint (n div 10) @ [char_of (48 + n mod 10)]"
        by (rule FormatUint_step)
      with m "1.prems" have "FormatUint (n div 10) = []" by simp
      then show ?thesis by (simp add: FormatUint_nonempty)
    qed
  next
    case False
    then have m: "FormatUint m = FormatUint (m div 10) @ [char_of (48 + m mod 10)]"
      by (rule FormatUint_step)
    show ?thesis
    proof (cases "n < 10")
      case True
      then have "FormatUint n = [char_of (48 + n)]" by (rule FormatUint_digit)
      with m "1.prems" have "FormatUint (m div 10) = []" by simp
      then show ?thesis by (simp add: FormatUint_nonempty)
    next
      case n: False
      then have "FormatUint n = FormatUint (n div 10) @ [char_of (48 + n mod 10)]"
        by (rule FormatUint_step)
      with m "1.prems" have a: "FormatUint (m div 10) = FormatUint (n div 10)"
        and b: "char_of (48 + m mod 10) = char_of (48 + n mod 10)"
        by simp_all
      from a have "m div 10 = n div 10" by (rule "1.IH" [OF False])
      moreover from b have "m mod 10 = n mod 10" by (intro digit_inj) simp_all
      ultimately show ?thesis by (metis div_mult_mod_eq)
    qed
  qed
qed

lemma length_FormatUint: "n < 10 ^ Suc k \<Longrightarrow> length (FormatUint n) \<le> Suc k"
proof (induction k arbitrary: n)
  case 0
  then show ?case by (simp add: FormatUint_digit)
next
  case (Suc k)
  show ?case
  proof (cases "n < 10")
    case True
    then show ?thesis by (simp add: FormatUint_digit)
  next
    case False
    from Suc.prems have "n div 10 < 10 ^ Suc k"
      by (simp add: less_mult_imp_div_less)
    then have "length (FormatUint (n div 10)) \<le> Suc k" by (rule Suc.IH)
    with False show ?thesis by (simp add: FormatUint_step)
  qed
qed

lemma key_length: "0 < length (key i) \<and> length (key i) \<le> MaxKeySize"
proof -
  have "unat i < 2 ^ 64" using unsigned_less [of i] by simp
  also have "(2::nat) ^ 64 < 10 ^ Suc 19" by simp
  finally have "length (FormatUint (unat i)) \<le> Suc 19" by (rule length_FormatUint)
  then show ?thesis by (simp add: key_def FormatUint_nonempty MaxKeySize_def)
qed

lemma key_inj: "key i = key j \<Longrightarrow> i = j"
  by (auto simp: key_def word_unat_eq_iff dest!: FormatUint_inj)

lemma bucketGet_bucketInsert:
  "bucketGet (bucketInsert k v es) k' = (if k' = k then Some v else bucketGet es k')"
  by (induction es) (auto simp: bucketGet_def)

lemma bucketGet_bucketDelete:
  "bucketGet (bucketDelete k es) k' = (if k' = k then None else bucketGet es k')"
  by (induction es) (auto simp: bucketGet_def bucketDelete_def)

lemma gobStream_nonempty: "gobStream w \<noteq> []"
  by (simp add: gobStream_def encodeUint_nonempty)

lemma Deserialize_gobStream:
  "length (valueMessage w) < tooBig \<Longrightarrow> DeserializeWpasteFile (gobStream w) = Inr (w\<lparr>id' := 0\<rparr>)"
  by (rule Deserialize_Serialize) (simp add: Serialize_def)

text \<open>An id that the loop of the lookup passes over.\<close>

lemma lookupFrom_skip:
  assumes "n \<le> N"
    and "\<forall>m. n < m \<and> m \<le> N \<longrightarrow>
           (case bucketGet es (FormatUint m) of
              None \<Rightarrow> True
            | Some v \<Rightarrow> v = [] \<or> (\<exists>f. DeserializeWpasteFile v = Inr f \<and> Name f \<noteq> name))"
  shows "lookupFrom name es N = lookupFrom name es n"
  using assms
proof (induction N)
  case 0
  then show ?case by simp
next
  case (Suc N)
  show ?case
  proof (cases "n = Suc N")
    case True
    then show ?thesis by simp
  next
    case False
    with Suc.prems have le: "n \<le> N" by simp
    from Suc.prems False have
      "case bucketGet es (FormatUint (Suc N)) of
         None \<Rightarrow> True
       | Some v \<Rightarrow> v = [] \<or> (\<exists>f. DeserializeWpasteFile v = Inr f \<and> Name f \<noteq> name)"
      by auto
    then have "lookupFrom name es (Suc N) = lookupFrom name es N"
      by (auto split: option.splits)
    also have "\<dots> = lookupFrom name es n"
      using le Suc.prems by (intro Suc.IH) auto
    finally show ?thesis .
  qed
qed

lemma lookupFrom_Some:
  "lookupFrom name es N = Inr (Some g) \<Longrightarrow>
   \<exists>n v f. 0 < n \<and> n \<le> N \<and> bucketGet es (FormatUint n) = Some v \<and> v \<noteq> []
     \<and> DeserializeWpasteFile v = Inr f \<and> Name f = name \<and> g = f\<lparr>id' := of_nat n\<rparr>
     \<and> (\<forall>m. n < m \<and> m \<le> N \<longrightarrow>
           (case bucketGet es (FormatUint m) of
              None \<Rightarrow> True
            | Some v \<Rightarrow> v = [] \<or> (\<exists>f. DeserializeWpasteFile v = Inr f \<and> Name f \<noteq> name)))"
proof -
  define skip where "skip = (\<lambda>m. case bucketGet es (FormatUint m) of
              None \<Rightarrow> True
            | Some v \<Rightarrow> v = [] \<or> (\<exists>f. DeserializeWpasteFile v = Inr f \<and> Name f \<noteq> name))"
  have "lookupFrom name es N = Inr (Some g) \<Longrightarrow>
    \<exists>n v f. 0 < n \<and> n \<le> N \<and> bucketGet es (FormatUint n) = Some v \<and> v \<noteq> []
     \<and> DeserializeWpasteFile v = Inr f \<and> Name f = name \<and> g = f\<lparr>id' := of_nat n\<rparr>
     \<and> (\<forall>m. n < m \<and> m \<le> N \<longrightarrow> skip m)"
  proof (induction N)
    case 0
    then show ?case by simp
  next
    case (Suc N)
    show ?case
    proof (cases "skip (Suc N)")
      case True
      then have "lookupFrom name es (Suc N) = lookupFrom name es N"
        by (auto simp: skip_def split: option.splits)
      with Suc obtain n v f where *: "0 < n" "n \<le> N" "bucketGet es (FormatUint n) = Some v"
        "v \<noteq> []" "DeserializeWpasteFile v = Inr f" "Name f = name" "g = f\<lparr>id' := of_nat n\<rparr>"
        and sk: "\<forall>m. n < m \<and> m \<le> N \<longrightarrow> skip m"
        by auto
      from sk True have sk': "\<forall>m. n < m \<and> m \<le> Suc N \<longrightarrow> skip m"
        by (auto simp: le_Suc_eq)
      from * have le: "n \<le> Suc N" by simp
      show ?thesis
        apply (rule exI [of _ n], rule exI [of _ v], rule exI [of _ f])
        using * le sk' by (intro conjI) assumption+
    next
      case False
      then obtain v where v: "bucketGet es (FormatUint (Suc N)) = Some v" "v \<noteq> []"
        and nf: "\<not> (\<exists>f. DeserializeWpasteFile v = Inr f \<and> Name f \<noteq> name)"
        by (auto simp: skip_def split: option.splits)
      from Suc.prems v obtain f where f: "DeserializeWpasteFile v = Inr f"
        by (cases "DeserializeWpasteFile v") auto
      with nf have name: "Name f = name" by auto
      from Suc.prems v f name have g: "g = f\<lparr>id' := of_nat (Suc N)\<rparr>" by simp
      have sk: "\<forall>m. Suc N < m \<and> m \<le> Suc N \<longrightarrow> skip m" by auto
      have pos: "0 < Suc N" "Suc N \<le> Suc N" by simp_all
      show ?thesis
        apply (rule exI [of _ "Suc N"], rule exI [of _ v], rule exI [of _ f])
        using pos v f name g sk by (intro conjI) assumption+
    qed
  qed
  then show "lookupFrom name es N = Inr (Some g) \<Longrightarrow> ?thesis"
    unfolding skip_def .
qed

lemma length_typeDefinition: "length typeDefinition = 119"
  by (simp add: typeDefinition_def length_typeDefinitionBody encodeUint_def)

lemma length_gobStream: "length (gobStream w) \<le> 128 + length (valueMessage w)"
  using length_encodeUint [of "of_nat (length (valueMessage w))"]
  by (simp add: gobStream_def length_typeDefinition)

lemma MaxValueSize_tooBig: "MaxValueSize < tooBig"
  by (simp add: MaxValueSize_def tooBig_def)

lemma key_1: "key 1 = ''1''"
  by code_simp

lemma key_2: "key 2 = ''2''"
  by code_simp

lemma garbage: "DeserializeWpasteFile ''x'' = Inl ErrUnexpectedEOF"
  by (simp add: DeserializeWpasteFile_def recvMessage_def decodeUint_def tooBig_def)

lemma status_HTTPError:
  "status (HTTPError w code d) = (if wroteHeader w then status w else code)"
  by (simp add: HTTPError_def Write_def WriteHeader_def)

lemma wroteHeader_HTTPError: "wroteHeader (HTTPError w code d)"
  by (simp add: HTTPError_def Write_def WriteHeader_def)

lemma status_HTTPServerError:
  "status (HTTPServerError w) = (if wroteHeader w then status w else 500)"
  by (simp add: HTTPServerError_def status_HTTPError)

lemma newResponse_simps: "\<not> wroteHeader newResponse" "status newResponse = 200"
  by (simp_all add: newResponse_def)

lemma sampleFile_small: "length (valueMessage sampleFile) < tooBig"
  using valueMessage_small [of sampleFile] MaxValueSize_tooBig by (simp add: sampleFile_def)

lemma expiringFile_small: "length (valueMessage expiringFile) < tooBig"
  using valueMessage_small [of expiringFile] MaxValueSize_tooBig by (simp add: expiringFile_def)

subsection \<open>Lookup and Save\<close>

lemma lookupFrom_hit:
  assumes "0 < n" "bucketGet es (FormatUint n) = Some v" "v \<noteq> []"
    "DeserializeWpasteFile v = Inr f" "Name f = name"
  shows "lookupFrom name es n = Inr (Some (f\<lparr>id' := of_nat n\<rparr>))"
proof -
  from assms(1) obtain k where "n = Suc k" by (cases n) auto
  with assms show ?thesis by simp
qed

lemma lookupFrom_abort:
  assumes "0 < n" "bucketGet es (FormatUint n) = Some v" "v \<noteq> []"
    "DeserializeWpasteFile v = Inl e"
  shows "lookupFrom name es n = Inl e"
proof -
  from assms(1) obtain k where "n = Suc k" by (cases n) auto
  with assms show ?thesis by simp
qed

lemma OpenWpasteByName_Some:
  assumes "OpenWpasteByName name db = Inr (Some g)"
  shows "opened db \<and> id' g \<noteq> 0 \<and> Name g = name
    \<and> (\<exists>n v f. 0 < n \<and> n \<le> unat (sequence db) \<and> key (id' g) = FormatUint n
          \<and> bucketGet (files db) (FormatUint n) = Some v \<and> v \<noteq> []
          \<and> DeserializeWpasteFile v = Inr f \<and> Name f = name \<and> g = f\<lparr>id' := of_nat n\<rparr>
          \<and> (\<forall>m. n < m \<and> m \<le> unat (sequence db) \<longrightarrow>
               (case bucketGet (files db) (FormatUint m) of
                  None \<Rightarrow> True
                | Some v \<Rightarrow> v = [] \<or> (\<exists>f. DeserializeWpasteFile v = Inr f \<and> Name f \<noteq> name))))"
proof -
  from assms have op: "opened db"
    and l: "lookupFrom name (files db) (unat (sequence db)) = Inr (Some g)"
    by (auto simp: OpenWpasteByName_def split: if_splits)
  from lookupFrom_Some [OF l] obtain n v f where *: "0 < n" "n \<le> unat (sequence db)"
    "bucketGet (files db) (FormatUint n) = Some v" "v \<noteq> []"
    "DeserializeWpasteFile v = Inr f" "Name f = name" "g = f\<lparr>id' := of_nat n\<rparr>"
    and sk: "\<forall>m. n < m \<and> m \<le> unat (sequence db) \<longrightarrow>
           (case bucketGet (files db) (FormatUint m) of
              None \<Rightarrow> True
            | Some v \<Rightarrow> v = [] \<or> (\<exists>f. DeserializeWpasteFile v = Inr f \<and> Name f \<noteq> name))"
    by blast
  have "unat (sequence db) < 2 ^ 64" using unsigned_less [of "sequence db"] by simp
  with * have lt: "n < 2 ^ 64" by simp
  then have un: "unat (of_nat n :: 64 word) = n" by (simp add: unat_of_nat)
  with * have nz: "id' g \<noteq> 0" by auto
  from * un have k: "key (id' g) = FormatUint n" by (simp add: key_def)
  from * have nm: "Name g = name" by simp
  show ?thesis
    apply (intro conjI op nz nm)
    apply (rule exI [of _ n], rule exI [of _ v], rule exI [of _ f])
    using * k sk by (intro conjI) assumption+
qed

lemma Save_existing:
  assumes "opened db" "id' w \<noteq> 0" "length (valueMessage w) < tooBig"
  shows "Save w db =
    (None, w, db\<lparr>files := (if length (gobStream w) \<le> MaxValueSize
                             then bucketInsert (key (id' w)) (gobStream w) (files db)
                             else files db),
                   sequence := sequence db\<rparr>)"
  using assms key_length [of "id' w"]
  by (simp add: Save_def Serialize_def bucketPut_def)

lemma Save_new:
  assumes "opened db" "id' w = 0" "length (valueMessage w) < MaxValueSize - 200"
  shows "Save w db =
    (None, w\<lparr>id' := sequence db + 1\<rparr>,
     db\<lparr>files := bucketInsert (key (sequence db + 1)) (gobStream w) (files db),
        sequence := sequence db + 1\<rparr>)"
proof -
  have "length (gobStream w) \<le> MaxValueSize"
    using assms(3) length_gobStream [of w] by (simp add: MaxValueSize_def)
  moreover have "length (valueMessage w) < tooBig"
    using assms(3) MaxValueSize_tooBig by simp
  moreover have "gobStream (w\<lparr>id' := sequence db + 1\<rparr>) = gobStream w"
    by (simp add: gobStream_def valueMessage_def exportedFields_def)
  ultimately show ?thesis
    using assms(1,2) key_length [of "sequence db + 1"]
    by (simp add: Save_def Serialize_def bucketPut_def Let_def)
qed

lemma Save_error:
  "Save w db = (Some err, w', db') \<Longrightarrow> db' = db"
  by (auto simp: Save_def Let_def split: if_splits sum.splits)

lemma Save_None:
  "Save w db = (None, w', db') \<Longrightarrow> opened db \<and> length (valueMessage w) < tooBig"
  by (auto simp: Save_def Serialize_def Let_def split: if_splits sum.splits)

lemma lookup_after_insert:
  assumes l: "OpenWpasteByName name db = Inr (Some g)"
    and nm: "Name w = name" and small: "length (valueMessage w) < tooBig"
  shows "OpenWpasteByName name (db\<lparr>files := bucketInsert (key (id' g)) (gobStream w) (files db)\<rparr>)
           = Inr (Some (w\<lparr>id' := id' g\<rparr>))"
proof -
  let ?es = "bucketInsert (key (id' g)) (gobStream w) (files db)"
  let ?N = "unat (sequence db)"
  from OpenWpasteByName_Some [OF l] obtain n v f where op: "opened db"
    and *: "0 < n" "n \<le> ?N" and kn: "key (id' g) = FormatUint n"
    and g: "g = f\<lparr>id' := of_nat n\<rparr>"
    and sk: "\<forall>m. n < m \<and> m \<le> ?N \<longrightarrow>
               (case bucketGet (files db) (FormatUint m) of
                  None \<Rightarrow> True
                | Some v \<Rightarrow> v = [] \<or> (\<exists>f. DeserializeWpasteFile v = Inr f \<and> Name f \<noteq> name))"
    by blast
  have other: "bucketGet ?es (FormatUint m) = bucketGet (files db) (FormatUint m)" if "n < m" for m
  proof -
    from that have "FormatUint m \<noteq> FormatUint n" using FormatUint_inj [of m n] by auto
    then show ?thesis by (simp add: bucketGet_bucketInsert kn)
  qed
  have sk': "\<forall>m. n < m \<and> m \<le> ?N \<longrightarrow>
               (case bucketGet ?es (FormatUint m) of
                  None \<Rightarrow> True
                | Some v \<Rightarrow> v = [] \<or> (\<exists>f. DeserializeWpasteFile v = Inr f \<and> Name f \<noteq> name))"
    using sk other by simp
  have "lookupFrom name ?es ?N = lookupFrom name ?es n"
    using *(2) sk' by (rule lookupFrom_skip)
  also have "\<dots> = Inr (Some (w\<lparr>id' := 0\<rparr>\<lparr>id' := of_nat n\<rparr>))"
  proof (rule lookupFrom_hit [OF *(1)])
    show "bucketGet ?es (FormatUint n) = Some (gobStream w)"
      by (simp add: bucketGet_bucketInsert kn)
    show "gobStream w \<noteq> []" by (rule gobStream_nonempty)
    show "DeserializeWpasteFile (gobStream w) = Inr (w\<lparr>id' := 0\<rparr>)"
      using small by (rule Deserialize_gobStream)
    show "Name (w\<lparr>id' := 0\<rparr>) = name" using nm by simp
  qed
  finally show ?thesis using op g by (simp add: OpenWpasteByName_def)
qed

lemma EditFile_steps:
  assumes "ContentLength r \<le> 10485760"
    and "OpenWpasteByName (pathId r) db = Inr (Some f)"
    and "\<not> Expired f now" and "AllowEdit f (FormValue r ''ep'')"
    and "length (valueMessage (f\<lparr>Data := FormValue r ''f'', Edited := now'\<rparr>)) < tooBig"
  shows "EditFile r now now' db =
    (if length (FormValue r ''f'') = 0 then HTTPError newResponse 400 fieldRequired
     else newResponse,
     db\<lparr>files :=
          (if length (gobStream (f\<lparr>Data := FormValue r ''f'', Edited := now'\<rparr>)) \<le> MaxValueSize
           then bucketInsert (key (id' f))
                  (gobStream (f\<lparr>Data := FormValue r ''f'', Edited := now'\<rparr>)) (files db)
           else files db),
        sequence := sequence db\<rparr>)"
proof -
  from OpenWpasteByName_Some [OF assms(2)] have "opened db" "id' f \<noteq> 0" by simp_all
  then have "Save (f\<lparr>Data := FormValue r ''f'', Edited := now'\<rparr>) db =
    (None, f\<lparr>Data := FormValue r ''f'', Edited := now'\<rparr>,
     db\<lparr>files :=
          (if length (gobStream (f\<lparr>Data := FormValue r ''f'', Edited := now'\<rparr>)) \<le> MaxValueSize
           then bucketInsert (key (id' f))
                  (gobStream (f\<lparr>Data := FormValue r ''f'', Edited := now'\<rparr>)) (files db)
           else files db),
        sequence := sequence db\<rparr>)"
    using assms(5) Save_existing [of db "f\<lparr>Data := FormValue r ''f'', Edited := now'\<rparr>"]
    by simp
  with assms(1-4) show ?thesis
    by (simp add: EditFile_def Let_def)
qed

lemma EditFile_200:
  assumes "EditFile r now now' db = (w, db')" and "status w = 200"
  shows "ContentLength r \<le> 10485760 \<and> FormValue r ''f'' \<noteq> []
    \<and> (\<exists>f. OpenWpasteByName (pathId r) db = Inr (Some f) \<and> \<not> Expired f now
          \<and> AllowEdit f (FormValue r ''ep'')
          \<and> length (valueMessage (f\<lparr>Data := FormValue r ''f'', Edited := now'\<rparr>)) < tooBig)"
proof -
  define w0 where "w0 = (if length (FormValue r ''f'') = 0
                         then HTTPError newResponse 400 fieldRequired else newResponse)"
  have w0: "wroteHeader w0 \<Longrightarrow> status w0 = 400" "\<not> wroteHeader w0 \<Longrightarrow> FormValue r ''f'' \<noteq> []"
    by (auto simp: w0_def status_HTTPError wroteHeader_HTTPError newResponse_simps split: if_splits)
  have err: "status (HTTPError w0 c d) = 200 \<Longrightarrow> c \<noteq> 200 \<Longrightarrow> False" for c d
    using w0 by (auto simp: status_HTTPError split: if_splits)
  have serr: "status (HTTPServerError w0) = 200 \<Longrightarrow> False"
    using w0 by (auto simp: status_HTTPServerError split: if_splits)
  from assms have cl: "ContentLength r \<le> 10485760"
    by (auto simp: EditFile_def status_HTTPError newResponse_simps split: if_splits)
  have body:
    "(case OpenWpasteByName (pathId r) db of
          Inl err \<Rightarrow> (HTTPServerError w0, db)
        | Inr file \<Rightarrow>
            (case file of
               None \<Rightarrow> (HTTPError w0 404 ''404 - File not found'', db)
             | Some f \<Rightarrow>
                 if Expired f now
                 then (HTTPError w0 410 ''410 - File is no longer available'', db)
                 else if \<not> AllowEdit f (FormValue r ''ep'')
                 then (HTTPError w0 401 ''401 - Invalid password'', db)
                 else
                   (case Save (f\<lparr>Data := FormValue r ''f'', Edited := now'\<rparr>) db of
                      (Some err, _, db') \<Rightarrow> (HTTPServerError w0, db')
                    | (None, _, db') \<Rightarrow> (w0, db')))) = (w, db')"
    unfolding w0_def using assms(1) cl
    by (cases "FormValue r ''f'' = []") (simp_all add: EditFile_def Let_def)
  from body assms(2) serr obtain found where l: "OpenWpasteByName (pathId r) db = Inr found"
    by (cases "OpenWpasteByName (pathId r) db") auto
  from body l assms(2) err [of 404] obtain f where f: "found = Some f"
    by (cases found) auto
  from body l f assms(2) err [of 410] have ne: "\<not> Expired f now"
    by (auto split: if_splits)
  from body l f ne assms(2) err [of 401] have ae: "AllowEdit f (FormValue r ''ep'')"
    by (auto split: if_splits)
  obtain e x d where s: "Save (f\<lparr>Data := FormValue r ''f'', Edited := now'\<rparr>) db = (e, x, d)"
    by (cases "Save (f\<lparr>Data := FormValue r ''f'', Edited := now'\<rparr>) db") auto
  from body l f ne ae s assms(2) serr have e: "e = None" and w: "w = w0"
    by (cases e; auto)+
  from s e have small: "length (valueMessage (f\<lparr>Data := FormValue r ''f'', Edited := now'\<rparr>)) < tooBig"
    using Save_None by blast
  from w assms(2) w0 have "FormValue r ''f'' \<noteq> []" by auto
  with cl l f ne ae small show ?thesis by simp
qed

lemma uniqueAmong_taken:
  "(k, v) \<in> set es \<Longrightarrow> DeserializeWpasteFile v = Inr f \<Longrightarrow> Name f = name \<Longrightarrow>
   \<not> uniqueAmong ''Name'' name es"
  by (induction es) (auto simp: fieldString_def split: sum.splits)

lemma DeleteFile_status: "status (fst (DeleteFile r db)) \<in> {200, 401, 404, 500}"
  by (auto simp: DeleteFile_def Delete_def Let_def status_HTTPError status_HTTPServerError
      newResponse_simps split: sum.splits option.splits)

subsection \<open>The sweep\<close>

lemma sweep_stuck:
  assumes "files db = (k, v) # es" and "v \<noteq> []" and "DeserializeWpasteFile v = Inl e"
  shows "sweep now add db = db"
  using assms by (simp add: sweep_def)

lemma AutoDeleter_stuck:
  assumes "files db = (k, v) # es" and "v \<noteq> []" and "DeserializeWpasteFile v = Inl e"
  shows "AutoDeleter ticks add db = db"
  using assms by (induction ticks) (simp_all add: sweep_stuck)

lemma forEachExpired_decodable:
  assumes "\<forall>e \<in> set es. snd e = [] \<or> (\<exists>f. DeserializeWpasteFile (snd e) = Inr f)"
  shows "forEachExpired now add es acc = acc @ map fst (filter (due now add) es)"
  using assms
proof (induction es arbitrary: acc)
  case Nil
  then show ?case by simp
next
  case (Cons e es)
  then have IH: "\<And>acc. forEachExpired now add es acc = acc @ map fst (filter (due now add) es)"
    by simp
  show ?case
  proof (cases "snd e = []")
    case True
    then have "\<not> due now add e" by (simp add: due_def split: sum.splits)
    with True IH show ?thesis by simp
  next
    case False
    with Cons.prems obtain f where f: "DeserializeWpasteFile (snd e) = Inr f" by auto
    with False have d: "due now add e \<longleftrightarrow>
        ExpiresAfter f \<noteq> 0 \<and> sint (now (fst e)) > sint (Created f + ExpiresAfter f + add)"
      by (simp add: due_def)
    from False f show ?thesis by (simp add: IH d)
  qed
qed

lemma bucketGet_fold_bucketDelete:
  "bucketGet (fold bucketDelete ks es) k = (if k \<in> set ks then None else bucketGet es k)"
  by (induction ks arbitrary: es) (auto simp: bucketGet_bucketDelete)

lemma sweep_decodable:
  assumes "opened db"
    and "\<forall>e \<in> set (files db). snd e = [] \<or> (\<exists>f. DeserializeWpasteFile (snd e) = Inr f)"
  shows "bucketGet (files (sweep now add db)) k =
           (if k \<in> fst ` {e \<in> set (files db). due now add e} then None
            else bucketGet (files db) k)"
proof -
  have c: "forEachExpired now add (files db) [] = map fst (filter (due now add) (files db))"
    using forEachExpired_decodable [OF assms(2), of now add "[]"] by simp
  have "files (sweep now add db)
          = fold bucketDelete (forEachExpired now add (files db) []) (files db)"
    using assms(1) by (cases "forEachExpired now add (files db) [] = []") (simp_all add: sweep_def)
  then show ?thesis
    by (simp add: c bucketGet_fold_bucketDelete image_def)
qed

subsection \<open>Expiration without overflow\<close>

lemma sint_add_no_overflow:
  fixes a b :: "64 word"
  assumes "- (2 ^ 63) \<le> sint a + sint b" and "sint a + sint b < 2 ^ 63"
  shows "sint (a + b) = sint a + sint b"
  using assms by (simp add: sint_word_ariths signed_take_bit_int_eq_self)

lemma Expired_iff_no_overflow:
  assumes "- (2 ^ 63) \<le> sint (Created w) + sint (ExpiresAfter w)"
    and "sint (Created w) + sint (ExpiresAfter w) < 2 ^ 63"
  shows "Expired w now \<longleftrightarrow>
           ExpiresAfter w \<noteq> 0 \<and> sint now > sint (Created w) + sint (ExpiresAfter w)"
  using sint_add_no_overflow [OF assms] by (simp add: Expired_def)

lemma Expired_never: "ExpiresAfter w = 0 \<Longrightarrow> \<not> Expired w now"
  by (simp add: Expired_def)

subsection \<open>The sample data\<close>

lemma FormatUint_1: "FormatUint (Suc 0) = ''1''"
  by code_simp

lemma FormatUint_2: "FormatUint 2 = ''2''"
  by code_simp

lemma FormatUint_3: "FormatUint 3 = ''3''"
  by code_simp

lemma newerFile_small: "length (valueMessage newerFile) < tooBig"
  using valueMessage_small [of newerFile] MaxValueSize_tooBig
  by (simp add: newerFile_def sampleFile_def)

lemma longLived_small: "length (valueMessage (longLived\<lparr>id' := 0\<rparr>)) < MaxValueSize - 200"
  by (rule valueMessage_small) (simp add: longLived_def)

lemma Deserialize_samples:
  "DeserializeWpasteFile (gobStream sampleFile) = Inr (sampleFile\<lparr>id' := 0\<rparr>)"
  "DeserializeWpasteFile (gobStream newerFile) = Inr (newerFile\<lparr>id' := 0\<rparr>)"
  "DeserializeWpasteFile (gobStream expiringFile) = Inr (expiringFile\<lparr>id' := 0\<rparr>)"
  using sampleFile_small newerFile_small expiringFile_small
  by (simp_all add: Deserialize_gobStream)

lemma lookup_sampleDB: "OpenWpasteByName ''abc'' sampleDB = Inr (Some sampleFile)"
proof -
  have d: "DeserializeWpasteFile (gobStream sampleFile) = Inr (sampleFile\<lparr>id' := 0\<rparr>)"
    using sampleFile_small by (rule Deserialize_gobStream)
  have "lookupFrom ''abc'' (files sampleDB) (Suc 0) = Inr (Some (sampleFile\<lparr>id' := 0\<rparr>\<lparr>id' := of_nat (Suc 0)\<rparr>))"
    by (rule lookupFrom_hit [where v = "gobStream sampleFile"])
      (simp_all add: sampleDB_def bucketGet_def FormatUint_1 gobStream_nonempty d, simp add: sampleFile_def)
  then show ?thesis by (simp add: OpenWpasteByName_def sampleDB_def sampleFile_def)
qed

lemma lookup_expiredDB: "OpenWpasteByName ''old'' expiredDB = Inr (Some expiringFile)"
proof -
  have d: "DeserializeWpasteFile (gobStream expiringFile) = Inr (expiringFile\<lparr>id' := 0\<rparr>)"
    using expiringFile_small by (rule Deserialize_gobStream)
  have "lookupFrom ''old'' (files expiredDB) 2 = Inr (Some (expiringFile\<lparr>id' := 0\<rparr>\<lparr>id' := of_nat 2\<rparr>))"
    by (rule lookupFrom_hit [where v = "gobStream expiringFile"])
      (simp_all add: expiredDB_def bucketGet_def FormatUint_2 gobStream_nonempty d, simp add: expiringFile_def)
  then show ?thesis by (simp add: OpenWpasteByName_def expiredDB_def expiringFile_def)
qed

lemma expiringFile_Expired: "Expired expiringFile 1790000002000000000"
  by (simp add: Expired_def expiringFile_def)

lemma only_3: "2 < m \<and> m \<le> 3 \<Longrightarrow> m = (3::nat)"
  by arith

lemma only_2: "1 < m \<and> m \<le> 2 \<Longrightarrow> m = (2::nat)"
  by arith

lemma expiringFile_other_name:
  "\<exists>f'. DeserializeWpasteFile (gobStream expiringFile) = Inr f' \<and> Name f' \<noteq> ''abc''"
proof -
  have "Name (expiringFile\<lparr>id' := 0\<rparr>) \<noteq> ''abc''" by (simp add: expiringFile_def)
  with Deserialize_samples(3) show ?thesis by blast
qed

lemma sampleDB_entry: "(''1'', gobStream sampleFile) \<in> set (files sampleDB)"
  by (simp add: sampleDB_def)

lemma sample_name: "Name (sampleFile\<lparr>id' := 0\<rparr>) = ''abc''"
  by (simp add: sampleFile_def)

lemma ParseInt_long: "ParseInt ''9000000000'' = Inr 9000000000"
  by (simp add: ParseInt_def digitValue_def)

lemma expiringFile_due:
  "ExpiresAfter (expiringFile\<lparr>id' := 0\<rparr>) \<noteq> 0
   \<and> sint (Created (expiringFile\<lparr>id' := 0\<rparr>) + ExpiresAfter (expiringFile\<lparr>id' := 0\<rparr>) + grace)
       < sint (1790100000000000000 :: 64 word)"
  by (simp add: expiringFile_def grace_def)

lemma sampleFile_live: "\<not> Expired sampleFile now"
  by (simp add: Expired_def sampleFile_def)

lemma sampleFile_AllowEdit: "AllowEdit sampleFile ''pw''"
  by (simp add: AllowEdit_def sampleFile_def)

lemma small_edit:
  "length d < 100 \<Longrightarrow> length (valueMessage (sampleFile\<lparr>Data := d, Edited := t\<rparr>)) < MaxValueSize - 200"
  by (rule valueMessage_small) (simp add: sampleFile_def)

lemma edit_sampleDB:
  assumes "pathId r = ''abc''" "ContentLength r \<le> 10485760" "FormValue r ''ep'' = ''pw''"
    and "length (FormValue r ''f'') < 100"
  shows "EditFile r now now' sampleDB =
    (if length (FormValue r ''f'') = 0 then HTTPError newResponse 400 fieldRequired
     else newResponse,
     sampleDB\<lparr>files := bucketInsert (key (id' sampleFile))
        (gobStream (sampleFile\<lparr>Data := FormValue r ''f'', Edited := now'\<rparr>)) (files sampleDB)\<rparr>)"
proof -
  let ?f2 = "sampleFile\<lparr>Data := FormValue r ''f'', Edited := now'\<rparr>"
  have l: "OpenWpasteByName (pathId r) sampleDB = Inr (Some sampleFile)"
    using assms(1) lookup_sampleDB by simp
  have a: "AllowEdit sampleFile (FormValue r ''ep'')"
    using assms(3) sampleFile_AllowEdit by simp
  have s: "length (valueMessage ?f2) < MaxValueSize - 200"
    using assms(4) by (rule small_edit)
  then have s1: "length (valueMessage ?f2) < tooBig"
    using MaxValueSize_tooBig by simp
  have s2: "length (gobStream ?f2) \<le> MaxValueSize"
    using s length_gobStream [of ?f2] by (simp add: MaxValueSize_def)
  from EditFile_steps [OF assms(2) l sampleFile_live a s1] s2
  show ?thesis by simp
qed

lemma lookup_after_edit:
  assumes "length d < 100"
  shows "OpenWpasteByName ''abc'' (sampleDB\<lparr>files := bucketInsert (key (id' sampleFile))
        (gobStream (sampleFile\<lparr>Data := d, Edited := t\<rparr>)) (files sampleDB)\<rparr>)
      = Inr (Some (sampleFile\<lparr>Data := d, Edited := t\<rparr>))"
proof -
  have s: "length (valueMessage (sampleFile\<lparr>Data := d, Edited := t\<rparr>)) < tooBig"
    using small_edit [OF assms, of t] MaxValueSize_tooBig by simp
  have n: "Name (sampleFile\<lparr>Data := d, Edited := t\<rparr>) = ''abc''"
    by (simp add: sampleFile_def)
  from lookup_after_insert [OF lookup_sampleDB n s] show ?thesis by simp
qed

lemma upload_long:
  "UploadFile uploadLong 1790000000000000000 [] emptyDB =
     Some (Write ''abc'' newResponse,
           \<lparr>opened = True, files = [(''1'', gobStream (longLived\<lparr>id' := 0\<rparr>))], sequence = 1\<rparr>)"
proof -
  have f: "FormValue uploadLong ''f'' = ''x''" "FormValue uploadLong ''name'' = ''abc''"
    "FormValue uploadLong ''e'' = ''9000000000''" "FormValue uploadLong ''ap'' = []"
    "FormValue uploadLong ''ep'' = []" "ContentLength uploadLong = 1"
    by (simp_all add: FormValue_def uploadLong_def)
  have u: "CheckUnique ''Name'' ''abc'' emptyDB"
    by (simp add: CheckUnique_def emptyDB_def)
  have w: "zeroWpasteFile\<lparr>Created := 1790000000000000000, Data := ''x'', Name := ''abc'',
             ExpiresAfter := 9000000000 * Second, AccessPassword := [], EditPassword := []\<rparr>
           = longLived\<lparr>id' := 0\<rparr>"
    by (simp add: zeroWpasteFile_def longLived_def Second_def)
  have s: "Save (longLived\<lparr>id' := 0\<rparr>) emptyDB =
    (None, longLived\<lparr>id' := 0\<rparr>\<lparr>id' := sequence emptyDB + 1\<rparr>,
     emptyDB\<lparr>files := bucketInsert (key (sequence emptyDB + 1)) (gobStream (longLived\<lparr>id' := 0\<rparr>))
                  (files emptyDB),
        sequence := sequence emptyDB + 1\<rparr>)"
    by (rule Save_new) (simp_all add: emptyDB_def longLived_small)
  have st: "storeUpload uploadLong newResponse ''abc''
      (zeroWpasteFile\<lparr>Created := 1790000000000000000, Data := ''x''\<rparr>) emptyDB
    = (Write ''abc'' newResponse,
       \<lparr>opened = True, files = [(''1'', gobStream (longLived\<lparr>id' := 0\<rparr>))], sequence = 1\<rparr>)"
    unfolding storeUpload_def Let_def f ParseInt_long
    by (simp add: w s) (simp add: emptyDB_def key_1)
  show ?thesis
    unfolding UploadFile_def Let_def f using u by (simp add: st)
qed

lemma upload_long_then_gone:
  "\<exists>w db. UploadFile uploadLong 1790000000000000000 [] emptyDB = Some (w, db)
     \<and> status w = 200 \<and> body w = ''abc''
     \<and> OpenWpasteByName ''abc'' db = Inr (Some longLived)
     \<and> ExpiresAfter longLived = 9000000000 * Second
     \<and> status (SendFile getAbc 1790000000000000001 db) = 410"
proof -
  let ?db = "\<lparr>opened = True, files = [(''1'', gobStream (longLived\<lparr>id' := 0\<rparr>))], sequence = 1\<rparr>"
  have d: "DeserializeWpasteFile (gobStream (longLived\<lparr>id' := 0\<rparr>)) = Inr (longLived\<lparr>id' := 0\<rparr>)"
    using Deserialize_gobStream [of "longLived\<lparr>id' := 0\<rparr>"] longLived_small MaxValueSize_tooBig
    by simp
  have "lookupFrom ''abc'' (files ?db) (Suc 0)
          = Inr (Some (longLived\<lparr>id' := 0\<rparr>\<lparr>id' := of_nat (Suc 0)\<rparr>))"
    by (rule lookupFrom_hit [where v = "gobStream (longLived\<lparr>id' := 0\<rparr>)"])
      (simp_all add: bucketGet_def FormatUint_1 gobStream_nonempty d, simp add: longLived_def)
  then have l: "OpenWpasteByName ''abc'' ?db = Inr (Some longLived)"
    by (simp add: OpenWpasteByName_def longLived_def)
  have e: "Expired longLived 1790000000000000001"
    by (simp add: longLived_def Expired_def)
  have g: "status (SendFile getAbc 1790000000000000001 ?db) = 410"
    using l e by (simp add: SendFile_def getAbc_def status_HTTPError newResponse_simps)
  have x: "ExpiresAfter longLived = 9000000000 * Second"
    by (simp add: longLived_def Second_def)
  have w: "status (Write ''abc'' newResponse) = 200" "body (Write ''abc'' newResponse) = ''abc''"
    by (simp_all add: Write_def WriteHeader_def newResponse_def)
  from upload_long l g x w show ?thesis by blast
qed

section \<open>The claims\<close>

subsection \<open>C1: an edit without the field f\<close>

text \<open>
  C1 says that a PUT whose field \<^verbatim>\<open>f\<close> is missing or empty fails with status 400 and
  leaves the stored record unchanged. The handler does answer 400, but the branch that
  writes it (lines 303 to 305) does not return. At the store with the one sample record,
  a PUT of its name with the right edit password and no \<^verbatim>\<open>f\<close> answers 400 and saves
  the record with an empty payload and a new time of edit.
\<close>

theorem EditFile_missing_f_overwrites:
  "FormValue editWithoutF ''f'' = []
   \<and> OpenWpasteByName ''abc'' sampleDB = Inr (Some sampleFile)
   \<and> Data sampleFile = ''Hello, world!''
   \<and> status (fst (EditFile editWithoutF 1790000001000000000 1790000001000000005 sampleDB)) = 400
   \<and> OpenWpasteByName ''abc''
        (snd (EditFile editWithoutF 1790000001000000000 1790000001000000005 sampleDB))
       = Inr (Some (sampleFile\<lparr>Data := [], Edited := 1790000001000000005\<rparr>))"
proof -
  have f: "FormValue editWithoutF ''f'' = []" "FormValue editWithoutF ''ep'' = ''pw''"
    "pathId editWithoutF = ''abc''" "ContentLength editWithoutF \<le> 10485760"
    by (simp_all add: FormValue_def editWithoutF_def)
  have e: "EditFile editWithoutF 1790000001000000000 1790000001000000005 sampleDB =
    (HTTPError newResponse 400 fieldRequired,
     sampleDB\<lparr>files := bucketInsert (key (id' sampleFile))
        (gobStream (sampleFile\<lparr>Data := [], Edited := 1790000001000000005\<rparr>)) (files sampleDB)\<rparr>)"
    using edit_sampleDB [of editWithoutF 1790000001000000000 1790000001000000005] f by simp
  show ?thesis
    using f(1) lookup_sampleDB
    by (simp add: e status_HTTPError newResponse_simps lookup_after_edit) (simp add: sampleFile_def)
qed


subsection \<open>C2: a sweep and an entry that does not decode\<close>

text \<open>
  C2 says that a sweep skips an entry that fails to deserialize and still deletes every
  entry expired for longer than the grace period. The callback returns the error, which
  ends the iteration. At the store whose first entry is no gob stream and whose second
  expired long ago, a sweep changes nothing, and neither does any number of them; with
  the same two entries in the other order the expired one is deleted.
\<close>

theorem sweep_stops_at_corrupt_entry:
  "files corruptFirstDB = [(''1'', ''x''), (''2'', gobStream expiringFile)]
   \<and> DeserializeWpasteFile ''x'' = Inl ErrUnexpectedEOF
   \<and> DeserializeWpasteFile (gobStream expiringFile) = Inr (expiringFile\<lparr>id' := 0\<rparr>)
   \<and> ExpiresAfter (expiringFile\<lparr>id' := 0\<rparr>) \<noteq> 0
   \<and> sint (Created (expiringFile\<lparr>id' := 0\<rparr>) + ExpiresAfter (expiringFile\<lparr>id' := 0\<rparr>) + grace)
       < sint (1790100000000000000 :: 64 word)
   \<and> sweep (\<lambda>k. 1790100000000000000) grace corruptFirstDB = corruptFirstDB
   \<and> (\<forall>ticks. AutoDeleter ticks grace corruptFirstDB = corruptFirstDB)
   \<and> files (sweep (\<lambda>k. 1790100000000000000) grace corruptLastDB) = [(''2'', ''x'')]"
proof -
  have f: "files corruptFirstDB = (''1'', ''x'') # [(''2'', gobStream expiringFile)]"
    by (simp add: corruptFirstDB_def)
  have x: "''x'' \<noteq> []" by simp
  have a: "sweep (\<lambda>k. 1790100000000000000) grace corruptFirstDB = corruptFirstDB"
    using f x garbage by (rule sweep_stuck)
  have b: "\<forall>ticks. AutoDeleter ticks grace corruptFirstDB = corruptFirstDB"
    using AutoDeleter_stuck [OF f x garbage] by simp
  have c: "forEachExpired (\<lambda>k. 1790100000000000000) grace (files corruptLastDB) [] = [''1'']"
    using expiringFile_due
    by (simp add: corruptLastDB_def gobStream_nonempty Deserialize_samples garbage)
  have d: "files (sweep (\<lambda>k. 1790100000000000000) grace corruptLastDB) = [(''2'', ''x'')]"
    by (simp add: sweep_def c) (simp add: corruptLastDB_def bucketDelete_def)
  from f a b d garbage Deserialize_samples(3) expiringFile_due show ?thesis by simp
qed


subsection \<open>C3: who may edit\<close>

text \<open>
  C3. \<^verbatim>\<open>AllowEdit\<close> holds exactly when the edit password of the record is not empty and
  the password supplied equals it; for a record whose edit password is empty it fails for
  every password supplied, the empty one too.
\<close>

theorem AllowEdit_iff:
  "(AllowEdit w password \<longleftrightarrow> EditPassword w \<noteq> [] \<and> password = EditPassword w)
   \<and> \<not> AllowEdit (w\<lparr>EditPassword := []\<rparr>) password
   \<and> \<not> AllowEdit (w\<lparr>EditPassword := []\<rparr>) []"
  by (simp add: AllowEdit_def)

subsection \<open>C4: the lookup takes the newest match and stops at an entry that does not decode\<close>

text \<open>
  C4, as amended. The lookup goes from the sequence of the bucket down. Let every id above
  \<open>n\<close> be passed over: no entry, an entry with an empty value, or a record of another
  name. Then the entry of \<open>n\<close>, when its value is not empty, decides: a record of the
  name sought is the result, with \<open>n\<close> as its id, whatever older entries hold; a
  value that does not deserialize makes the lookup return that error. An entry with an
  empty value is passed over like a missing one (lines 153 to 155), although it does not
  deserialize either.
\<close>

theorem OpenWpasteByName_newest_first:
  assumes "opened db" and "0 < n" and "n \<le> unat (sequence db)"
    and "\<forall>m. n < m \<and> m \<le> unat (sequence db) \<longrightarrow>
           (case bucketGet (files db) (FormatUint m) of
              None \<Rightarrow> True
            | Some v' \<Rightarrow> v' = [] \<or> (\<exists>f'. DeserializeWpasteFile v' = Inr f' \<and> Name f' \<noteq> name))"
    and "bucketGet (files db) (FormatUint n) = Some v" and "v \<noteq> []"
  shows "(\<forall>f. DeserializeWpasteFile v = Inr f \<and> Name f = name \<longrightarrow>
            OpenWpasteByName name db = Inr (Some (f\<lparr>id' := of_nat n\<rparr>)))
       \<and> (\<forall>e. DeserializeWpasteFile v = Inl e \<longrightarrow> OpenWpasteByName name db = Inl e)"
proof -
  have skip: "lookupFrom name (files db) (unat (sequence db)) = lookupFrom name (files db) n"
    using assms(3,4) by (rule lookupFrom_skip)
  show ?thesis
    using assms(1,2,5,6) skip
    by (auto simp: OpenWpasteByName_def lookupFrom_hit lookupFrom_abort)
qed


text \<open>
  Two records named \<open>abc\<close> under ids 1 and 2, below a record of another name: the lookup
  returns the one of id 2. With an entry that is no gob stream in the place of the newer
  record, it returns the error and not the record of id 1.
\<close>

theorem OpenWpasteByName_newest_first_witness:
  "OpenWpasteByName ''abc'' duplicateDB = Inr (Some newerFile)
   \<and> OpenWpasteByName ''abc'' corruptNewerDB = Inl ErrUnexpectedEOF"
proof -
  have skip: "\<forall>m. 2 < m \<and> m \<le> unat (sequence db) \<longrightarrow>
           (case bucketGet (files db) (FormatUint m) of
              None \<Rightarrow> True
            | Some v' \<Rightarrow> v' = [] \<or> (\<exists>f'. DeserializeWpasteFile v' = Inr f' \<and> Name f' \<noteq> ''abc''))"
    if "sequence db = 3" "bucketGet (files db) ''3'' = Some (gobStream expiringFile)" for db
  proof (intro allI impI)
    fix m :: nat
    assume "2 < m \<and> m \<le> unat (sequence db)"
    with that have "m = 3" by (intro only_3) simp
    with that show "case bucketGet (files db) (FormatUint m) of
              None \<Rightarrow> True
            | Some v' \<Rightarrow> v' = [] \<or> (\<exists>f'. DeserializeWpasteFile v' = Inr f' \<and> Name f' \<noteq> ''abc'')"
      using expiringFile_other_name by (simp add: FormatUint_3)
  qed
  have a: "OpenWpasteByName ''abc'' duplicateDB = Inr (Some (newerFile\<lparr>id' := 0\<rparr>\<lparr>id' := of_nat 2\<rparr>))"
  proof -
    have h1: "opened duplicateDB" by (simp add: duplicateDB_def)
    have h3: "2 \<le> unat (sequence duplicateDB)" by (simp add: duplicateDB_def)
    have h4: "\<forall>m. 2 < m \<and> m \<le> unat (sequence duplicateDB) \<longrightarrow>
           (case bucketGet (files duplicateDB) (FormatUint m) of
              None \<Rightarrow> True
            | Some v' \<Rightarrow> v' = [] \<or> (\<exists>f'. DeserializeWpasteFile v' = Inr f' \<and> Name f' \<noteq> ''abc''))"
      by (rule skip) (simp_all add: duplicateDB_def bucketGet_def)
    have h5: "bucketGet (files duplicateDB) (FormatUint 2) = Some (gobStream newerFile)"
      by (simp add: duplicateDB_def bucketGet_def FormatUint_2)
    have h6: "gobStream newerFile \<noteq> []" by (rule gobStream_nonempty)
    have nm: "Name (newerFile\<lparr>id' := 0\<rparr>) = ''abc''"
      by (simp add: newerFile_def sampleFile_def)
    from OpenWpasteByName_newest_first [OF h1 _ h3 h4 h5 h6] Deserialize_samples(2) nm
    show ?thesis by simp
  qed
  have b: "OpenWpasteByName ''abc'' corruptNewerDB = Inl ErrUnexpectedEOF"
  proof -
    have h1: "opened corruptNewerDB" by (simp add: corruptNewerDB_def)
    have h3: "2 \<le> unat (sequence corruptNewerDB)" by (simp add: corruptNewerDB_def)
    have h4: "\<forall>m. 2 < m \<and> m \<le> unat (sequence corruptNewerDB) \<longrightarrow>
           (case bucketGet (files corruptNewerDB) (FormatUint m) of
              None \<Rightarrow> True
            | Some v' \<Rightarrow> v' = [] \<or> (\<exists>f'. DeserializeWpasteFile v' = Inr f' \<and> Name f' \<noteq> ''abc''))"
      by (rule skip) (simp_all add: corruptNewerDB_def bucketGet_def)
    have h5: "bucketGet (files corruptNewerDB) (FormatUint 2) = Some ''x''"
      by (simp add: corruptNewerDB_def bucketGet_def FormatUint_2)
    have h6: "''x'' \<noteq> []" by simp
    from OpenWpasteByName_newest_first [OF h1 _ h3 h4 h5 h6] garbage
    show ?thesis by simp
  qed
  from a b show ?thesis by (simp add: newerFile_def sampleFile_def)
qed


text \<open>
  The claim as stated makes the lookup abort at every entry that fails to deserialize. The
  record \<open>abc\<close> under id 1 and an empty value under id 2: the empty value does not
  deserialize, and the lookup returns the record of id 1.
\<close>

theorem OpenWpasteByName_empty_value_counterexample:
  "bucketGet (files emptyNewerDB) (FormatUint 2) = Some []
   \<and> DeserializeWpasteFile [] = Inl EOF
   \<and> bucketGet (files emptyNewerDB) (FormatUint 1) = Some (gobStream sampleFile)
   \<and> OpenWpasteByName ''abc'' emptyNewerDB = Inr (Some sampleFile)
   \<and> OpenWpasteByName ''abc'' emptyNewerDB \<noteq> Inl EOF"
proof -
  have e2: "bucketGet (files emptyNewerDB) (FormatUint 2) = Some []"
    by (simp add: emptyNewerDB_def bucketGet_def FormatUint_2)
  have e1: "bucketGet (files emptyNewerDB) (FormatUint (Suc 0)) = Some (gobStream sampleFile)"
    by (simp add: emptyNewerDB_def bucketGet_def FormatUint_1)
  have eof: "DeserializeWpasteFile [] = Inl EOF"
    by (simp add: DeserializeWpasteFile_def recvMessage_def decodeUint_def)
  have skip: "\<forall>m. 1 < m \<and> m \<le> 2 \<longrightarrow>
           (case bucketGet (files emptyNewerDB) (FormatUint m) of
              None \<Rightarrow> True
            | Some v \<Rightarrow> v = [] \<or> (\<exists>f. DeserializeWpasteFile v = Inr f \<and> Name f \<noteq> ''abc''))"
  proof (intro allI impI)
    fix m :: nat
    assume "1 < m \<and> m \<le> 2"
    then have "m = 2" by (rule only_2)
    with e2 show "case bucketGet (files emptyNewerDB) (FormatUint m) of
              None \<Rightarrow> True
            | Some v \<Rightarrow> v = [] \<or> (\<exists>f. DeserializeWpasteFile v = Inr f \<and> Name f \<noteq> ''abc'')"
      by simp
  qed
  have "lookupFrom ''abc'' (files emptyNewerDB) 2 = lookupFrom ''abc'' (files emptyNewerDB) 1"
    by (rule lookupFrom_skip [OF _ skip]) simp
  also have "\<dots> = lookupFrom ''abc'' (files emptyNewerDB) (Suc 0)" by simp
  also have "\<dots> = Inr (Some (sampleFile\<lparr>id' := 0\<rparr>\<lparr>id' := of_nat (Suc 0)\<rparr>))"
    by (rule lookupFrom_hit [where v = "gobStream sampleFile"])
      (simp_all add: e1 gobStream_nonempty Deserialize_samples sample_name)
  finally have l: "OpenWpasteByName ''abc'' emptyNewerDB = Inr (Some sampleFile)"
    by (simp add: OpenWpasteByName_def emptyNewerDB_def sampleFile_def)
  from e2 eof e1 l show ?thesis by simp
qed

subsection \<open>C5: the round trip of a record\<close>

text \<open>
  C5, as amended. Whenever \<^verbatim>\<open>Serialize\<close> succeeds, \<^verbatim>\<open>DeserializeWpasteFile\<close> of its
  result is the record with all exported fields as they were, the zero values too, and
  with the id 0: gob does not encode the unexported field.
\<close>

theorem Deserialize_Serialize_exported:
  "Serialize w = Inr d \<Longrightarrow> DeserializeWpasteFile d = Inr (w\<lparr>id' := 0\<rparr>)"
  by (rule Deserialize_Serialize)


theorem Deserialize_Serialize_exported_witness:
  "Serialize sampleFile = Inr (gobStream sampleFile)
   \<and> DeserializeWpasteFile (gobStream sampleFile) = Inr (sampleFile\<lparr>id' := 0\<rparr>)
   \<and> ExpiresAfter (sampleFile\<lparr>id' := 0\<rparr>) = 0 \<and> Edited (sampleFile\<lparr>id' := 0\<rparr>) = 0"
proof -
  have s: "Serialize sampleFile = Inr (gobStream sampleFile)"
    using sampleFile_small by (simp add: Serialize_def)
  from Deserialize_Serialize_exported [OF s] s show ?thesis
    by (simp add: sampleFile_def)
qed


text \<open>The claim as stated includes the id: the sample record, of id 1, does not come back.\<close>

theorem Deserialize_Serialize_id_counterexample:
  "Serialize sampleFile = Inr (gobStream sampleFile)
   \<and> DeserializeWpasteFile (gobStream sampleFile) \<noteq> Inr sampleFile"
proof -
  have s: "Serialize sampleFile = Inr (gobStream sampleFile)"
    using sampleFile_small by (simp add: Serialize_def)
  have "DeserializeWpasteFile (gobStream sampleFile) = Inr (sampleFile\<lparr>id' := 0\<rparr>)"
    using s by (rule Deserialize_Serialize)
  moreover have "sampleFile\<lparr>id' := 0\<rparr> \<noteq> sampleFile"
    by (simp add: sampleFile_def)
  ultimately show ?thesis using s by simp
qed


subsection \<open>C6: expiration and the sum that wraps\<close>

text \<open>
  C6 says that a record with \<^verbatim>\<open>expiresAfter = N\<close> is not expired at any time up to
  \<^verbatim>\<open>createdAt + N\<close>. \<^verbatim>\<open>Expired\<close> adds in \<^verbatim>\<open>int64\<close>. An upload with
  \<^verbatim>\<open>e=9000000000\<close> passes \<^verbatim>\<open>ParseInt\<close> and the sign check and stores
  \<open>9000000000 * Second\<close>, which fits; created at 1790000000000000000, the record is
  expired one nanosecond later, far before the sum of the two.
\<close>

theorem Expired_overflow:
  "ParseInt ''9000000000'' = Inr 9000000000
   \<and> 9000000000 * Second = ExpiresAfter longLived
   \<and> sint (Created longLived) = 1790000000000000000
   \<and> sint (ExpiresAfter longLived) = 9000000000000000000
   \<and> (1790000000000000001 :: int) \<le> sint (Created longLived) + sint (ExpiresAfter longLived)
   \<and> Expired longLived 1790000000000000001
   \<and> (\<exists>w db. UploadFile uploadLong 1790000000000000000 [] emptyDB = Some (w, db)
         \<and> status w = 200
         \<and> OpenWpasteByName ''abc'' db = Inr (Some longLived)
         \<and> status (SendFile getAbc 1790000000000000001 db) = 410)"
proof -
  have "ParseInt ''9000000000'' = Inr 9000000000
   \<and> 9000000000 * Second = ExpiresAfter longLived
   \<and> sint (Created longLived) = 1790000000000000000
   \<and> sint (ExpiresAfter longLived) = 9000000000000000000
   \<and> (1790000000000000001 :: int) \<le> sint (Created longLived) + sint (ExpiresAfter longLived)
   \<and> Expired longLived 1790000000000000001"
    by (simp add: ParseInt_long longLived_def Second_def Expired_def)
  moreover from upload_long_then_gone
  have "\<exists>w db. UploadFile uploadLong 1790000000000000000 [] emptyDB = Some (w, db)
         \<and> status w = 200
         \<and> OpenWpasteByName ''abc'' db = Inr (Some longLived)
         \<and> status (SendFile getAbc 1790000000000000001 db) = 410"
    by blast
  ultimately show ?thesis by blast
qed


subsection \<open>C7: an upload under a name that is taken\<close>

text \<open>
  C7, as amended. When an entry of the bucket deserializes to a record of the name the
  upload asks for, the upload changes nothing in the store, and its status is 413 when the
  declared length of the body is over 2 MiB, else 400 when \<^verbatim>\<open>f\<close> is empty, else 409.
\<close>

theorem UploadFile_name_taken:
  assumes "(k, v) \<in> set (files db)" and "DeserializeWpasteFile v = Inr f"
    and "Name f = FormValue r ''name''" and "FormValue r ''name'' \<noteq> []"
  shows "\<exists>w. UploadFile r now draws db = Some (w, db)
    \<and> status w = (if ContentLength r > 2097152 then 413
                   else if FormValue r ''f'' = [] then 400 else 409)"
proof -
  from assms(1-3) have "\<not> CheckUnique ''Name'' (FormValue r ''name'') db"
    by (auto simp: CheckUnique_def dest: uniqueAmong_taken)
  with assms(4) show ?thesis
    by (simp add: UploadFile_def Let_def status_HTTPError newResponse_simps)
qed


theorem UploadFile_name_taken_witness:
  "\<exists>w. UploadFile uploadTaken 1790000001000000000 [] sampleDB = Some (w, sampleDB)
     \<and> status w = 409"
proof -
  have n: "Name (sampleFile\<lparr>id' := 0\<rparr>) = FormValue uploadTaken ''name''"
    by (simp add: sample_name FormValue_def uploadTaken_def)
  have ne: "FormValue uploadTaken ''name'' \<noteq> []"
    by (simp add: FormValue_def uploadTaken_def)
  from UploadFile_name_taken [OF sampleDB_entry Deserialize_samples(1) n ne,
      of 1790000001000000000 "[]"]
  show ?thesis by (simp add: FormValue_def uploadTaken_def)
qed


text \<open>The claim as stated promises 409 for every such upload: one without \<^verbatim>\<open>f\<close> gets 400.\<close>

theorem UploadFile_name_taken_counterexample:
  "(''1'', gobStream sampleFile) \<in> set (files sampleDB)
   \<and> DeserializeWpasteFile (gobStream sampleFile) = Inr (sampleFile\<lparr>id' := 0\<rparr>)
   \<and> Name (sampleFile\<lparr>id' := 0\<rparr>) = FormValue uploadTakenWithoutF ''name''
   \<and> FormValue uploadTakenWithoutF ''name'' \<noteq> []
   \<and> (\<exists>w. UploadFile uploadTakenWithoutF 1790000001000000000 [] sampleDB = Some (w, sampleDB)
          \<and> status w = 400 \<and> status w \<noteq> 409)"
  by (simp add: sampleDB_entry Deserialize_samples sample_name FormValue_def
      uploadTakenWithoutF_def UploadFile_def Let_def status_HTTPError newResponse_simps)


subsection \<open>C8: what an edit changes\<close>

text \<open>
  C8. After an edit that answers 200, the lookup of the name finds a record \<open>f'\<close> where
  it found \<open>f\<close> before: \<open>f'\<close> is \<open>f\<close> with the new payload and time of edit (or
  \<open>f\<close> itself, when the bucket refuses a value over its size limit), so the id, the name,
  both passwords, the time of creation and the expiry are those of \<open>f\<close>. The sequence of
  the bucket and every entry under another key are unchanged, and \<^verbatim>\<open>Save\<close> of a record
  whose id is not 0 never changes the sequence.
\<close>

theorem EditFile_frame:
  assumes "EditFile r now now' db = (w, db')" and "status w = 200"
  shows "\<exists>f f'. OpenWpasteByName (pathId r) db = Inr (Some f)
     \<and> OpenWpasteByName (pathId r) db' = Inr (Some f')
     \<and> (f' = f\<lparr>Data := FormValue r ''f'', Edited := now'\<rparr> \<or> f' = f)
     \<and> (length (gobStream (f\<lparr>Data := FormValue r ''f'', Edited := now'\<rparr>)) \<le> MaxValueSize
          \<longrightarrow> f' = f\<lparr>Data := FormValue r ''f'', Edited := now'\<rparr>)
     \<and> id' f' = id' f \<and> id' f \<noteq> 0 \<and> Name f' = Name f
     \<and> AccessPassword f' = AccessPassword f \<and> EditPassword f' = EditPassword f
     \<and> Created f' = Created f \<and> ExpiresAfter f' = ExpiresAfter f
     \<and> sequence db' = sequence db
     \<and> (\<forall>k. k \<noteq> key (id' f) \<longrightarrow> bucketGet (files db') k = bucketGet (files db) k)
     \<and> (\<forall>x d. id' x \<noteq> 0 \<longrightarrow> sequence (snd (snd (Save x d))) = sequence d)"
proof -
  let ?f2 = "\<lambda>f. f\<lparr>Data := FormValue r ''f'', Edited := now'\<rparr>"
  from EditFile_200 [OF assms] obtain f where cl: "ContentLength r \<le> 10485760"
    and l: "OpenWpasteByName (pathId r) db = Inr (Some f)" and ne: "\<not> Expired f now"
    and ae: "AllowEdit f (FormValue r ''ep'')"
    and small: "length (valueMessage (?f2 f)) < tooBig"
    by blast
  from OpenWpasteByName_Some [OF l] have nz: "id' f \<noteq> 0" and nm: "Name f = pathId r"
    by simp_all
  have db': "db' = db\<lparr>files :=
          (if length (gobStream (?f2 f)) \<le> MaxValueSize
           then bucketInsert (key (id' f)) (gobStream (?f2 f)) (files db)
           else files db),
        sequence := sequence db\<rparr>"
    using EditFile_steps [OF cl l ne ae small] assms(1) by simp
  have seq: "sequence db' = sequence db" by (simp add: db')
  have frame: "\<forall>k. k \<noteq> key (id' f) \<longrightarrow> bucketGet (files db') k = bucketGet (files db) k"
    by (simp add: db' bucketGet_bucketInsert)
  have save: "\<forall>x d. id' x \<noteq> 0 \<longrightarrow> sequence (snd (snd (Save x d))) = sequence d"
    by (auto simp: Save_def Let_def split: sum.splits)
  show ?thesis
  proof (cases "length (gobStream (?f2 f)) \<le> MaxValueSize")
    case True
    then have "db' = db\<lparr>files := bucketInsert (key (id' f)) (gobStream (?f2 f)) (files db)\<rparr>"
      by (simp add: db')
    then have l': "OpenWpasteByName (pathId r) db' = Inr (Some (?f2 f))"
      using lookup_after_insert [OF l, of "?f2 f"] nm small by simp
    show ?thesis
      apply (rule exI [of _ f], rule exI [of _ "?f2 f"])
      using l l' nz seq frame save by simp
  next
    case False
    then have "db' = db" by (simp add: db')
    with l have l': "OpenWpasteByName (pathId r) db' = Inr (Some f)" by simp
    show ?thesis
      apply (rule exI [of _ f], rule exI [of _ f])
      using l l' nz seq frame save False by simp
  qed
qed


theorem EditFile_frame_witness:
  "\<exists>w db'. EditFile editRequest 1790000001000000000 1790000001000000005 sampleDB = (w, db')
     \<and> status w = 200
     \<and> OpenWpasteByName ''abc'' sampleDB = Inr (Some sampleFile)
     \<and> OpenWpasteByName ''abc'' db'
         = Inr (Some (sampleFile\<lparr>Data := ''43'', Edited := 1790000001000000005\<rparr>))
     \<and> sequence db' = sequence sampleDB"
proof -
  let ?f2 = "sampleFile\<lparr>Data := ''43'', Edited := 1790000001000000005\<rparr>"
  obtain w db' where e: "EditFile editRequest 1790000001000000000 1790000001000000005 sampleDB = (w, db')"
    by (cases "EditFile editRequest 1790000001000000000 1790000001000000005 sampleDB") auto
  have f: "FormValue editRequest ''f'' = ''43''" "FormValue editRequest ''ep'' = ''pw''"
    "pathId editRequest = ''abc''" "ContentLength editRequest \<le> 10485760"
    by (simp_all add: FormValue_def editRequest_def)
  from e edit_sampleDB [of editRequest 1790000001000000000 1790000001000000005] f
  have w: "w = newResponse" by simp
  then have s: "status w = 200" by (simp add: newResponse_simps)
  have big: "length (gobStream ?f2) \<le> MaxValueSize"
    using small_edit [of "''43''" 1790000001000000005] length_gobStream [of ?f2]
    by (simp add: MaxValueSize_def)
  from EditFile_frame [OF e s] f lookup_sampleDB big
  have "OpenWpasteByName ''abc'' db' = Inr (Some ?f2) \<and> sequence db' = sequence sampleDB"
    by auto
  with e s lookup_sampleDB show ?thesis by blast
qed


subsection \<open>C9: an expired record is gone whatever the password\<close>

text \<open>
  C9. When the name of a GET resolves to a record that is expired at the time of the
  request, the status is 410 for every form, that is, for every access password supplied
  or none.
\<close>

theorem SendFile_expired:
  assumes "OpenWpasteByName (pathId r) db = Inr (Some f)" and "Expired f now"
  shows "status (SendFile (r\<lparr>Form := form\<rparr>) now db) = 410"
  using assms by (simp add: SendFile_def HTTPError_def Write_def WriteHeader_def newResponse_def)


theorem SendFile_expired_witness:
  "OpenWpasteByName ''old'' expiredDB = Inr (Some expiringFile)
   \<and> Expired expiringFile 1790000002000000000
   \<and> status (SendFile \<lparr>ContentLength = 0, Form = [(''ap'', ''secret'')], pathId = ''old''\<rparr>
        1790000002000000000 expiredDB) = 410
   \<and> status (SendFile \<lparr>ContentLength = 0, Form = [(''ap'', ''wrong'')], pathId = ''old''\<rparr>
        1790000002000000000 expiredDB) = 410
   \<and> status (SendFile \<lparr>ContentLength = 0, Form = [], pathId = ''old''\<rparr>
        1790000002000000000 expiredDB) = 410"
proof -
  let ?r = "\<lparr>ContentLength = 0, Form = [], pathId = ''old''\<rparr>"
  have l: "OpenWpasteByName (pathId ?r) expiredDB = Inr (Some expiringFile)"
    using lookup_expiredDB by simp
  note t = SendFile_expired [OF l expiringFile_Expired]
  from t [of "[(''ap'', ''secret'')]"] t [of "[(''ap'', ''wrong'')]"] t [of "[]"]
  show ?thesis using lookup_expiredDB expiringFile_Expired by simp
qed


subsection \<open>C10: a delete does not look at the expiry\<close>

text \<open>
  C10. When the name of a DELETE resolves to a record that is expired and the password
  supplied passes \<^verbatim>\<open>AllowEdit\<close>, the status is 200 and the entry of the record is
  removed. No DELETE at all is answered 410: the handler tests existence and
  \<^verbatim>\<open>AllowEdit\<close> only.
\<close>

theorem DeleteFile_ignores_expiration:
  assumes "OpenWpasteByName (pathId r) db = Inr (Some f)" and "Expired f now"
    and "AllowEdit f (FormValue r ''ep'')"
  shows "status (fst (DeleteFile r db)) = 200
       \<and> bucketGet (files (snd (DeleteFile r db))) (key (id' f)) = None
       \<and> (\<forall>r' db'. status (fst (DeleteFile r' db')) \<noteq> 410)"
proof -
  from OpenWpasteByName_Some [OF assms(1)] have "opened db" by simp
  with assms(1,3) have "status (fst (DeleteFile r db)) = 200
       \<and> bucketGet (files (snd (DeleteFile r db))) (key (id' f)) = None"
    by (simp add: DeleteFile_def Delete_def newResponse_simps bucketGet_bucketDelete)
  moreover have "status (fst (DeleteFile r' db')) \<noteq> 410" for r' db'
    using DeleteFile_status [of r' db'] by auto
  ultimately show ?thesis by simp
qed


theorem DeleteFile_ignores_expiration_witness:
  "OpenWpasteByName ''old'' expiredDB = Inr (Some expiringFile)
   \<and> Expired expiringFile 1790000002000000000
   \<and> AllowEdit expiringFile ''pw''
   \<and> status (fst (DeleteFile \<lparr>ContentLength = 0, Form = [(''ep'', ''pw'')], pathId = ''old''\<rparr>
        expiredDB)) = 200
   \<and> bucketGet (files (snd (DeleteFile
        \<lparr>ContentLength = 0, Form = [(''ep'', ''pw'')], pathId = ''old''\<rparr> expiredDB))) ''2'' = None"
proof -
  let ?r = "\<lparr>ContentLength = 0, Form = [(''ep'', ''pw'')], pathId = ''old''\<rparr>"
  have l: "OpenWpasteByName (pathId ?r) expiredDB = Inr (Some expiringFile)"
    using lookup_expiredDB by simp
  have a: "AllowEdit expiringFile (FormValue ?r ''ep'')"
    by (simp add: AllowEdit_def FormValue_def expiringFile_def)
  have k: "key (id' expiringFile) = ''2''"
    by (simp add: expiringFile_def key_2)
  from DeleteFile_ignores_expiration [OF l expiringFile_Expired a] l a k
  show ?thesis using expiringFile_Expired by (simp add: FormValue_def)
qed


end
